theory Spec2Isabelle
  imports Main "HOL-Library.Log_Nat"
begin

section \<open>Python values used by \<open>clipper.py\<close>\<close>

subsection \<open>Exceptions\<close>

text \<open>
  An exception is its class together with its message. \<open>clipper.py\<close> declares
  \<open>ClipperError\<close> with the subclasses \<open>DownloadError\<close> and \<open>ProcessingError\<close>;
  the other classes are the built-in ones that the arithmetic of the module and its
  collaborators (moviepy, the file system) can raise. \<open>FileNotFoundError\<close> is a
  subclass of \<open>OSError\<close>; \<open>OtherException\<close> stands for any class that is
  neither of these.
\<close>

datatype exn_class =
    ProcessingError | DownloadError
  | OverflowError | ValueError | ZeroDivisionError
  | OSError | FileNotFoundError | OtherException

type_synonym exn = "exn_class \<times> string"

subsection \<open>Floats\<close>

text \<open>
  A Python \<open>float\<close> is an IEEE 754 binary64 value. A finite value is modelled by the
  rational number it denotes (so \<open>Fin 0\<close> stands for both zeros, whose sign no
  operation of the module observes); the other values are the two infinities and NaN.
\<close>

datatype pyfloat = Fin rat | PInf | NInf | NaN

text \<open>Rounding to the nearest integer, ties to the even one.\<close>

definition round_half_even :: "rat \<Rightarrow> int" where
  "round_half_even x =
     (let f = \<lfloor>x\<rfloor>; r = x - of_int f
      in if r < 1/2 then f else if 1/2 < r then f + 1 else if even f then f else f + 1)"

text \<open>
  The binary exponent of a positive rational: \<open>2 powi binexp x \<le> x < 2 powi (binexp x + 1)\<close>.
\<close>

definition binexp :: "rat \<Rightarrow> int" where
  "binexp x =
     (let (a, b) = quotient_of x; k = bitlen a - bitlen b
      in if 2 powi k \<le> x then k else k - 1)"

text \<open>
  The spacing of the binary64 values around \<open>x\<close>: 53 significant bits, and the
  smallest exponent \<open>-1022\<close> (below it the values are subnormal, spaced by
  \<open>2 powi (-1074)\<close>).
\<close>

definition quantum :: "rat \<Rightarrow> rat" where
  "quantum x = 2 powi (max (binexp \<bar>x\<bar>) (- 1022) - 52)"

definition nearest :: "rat \<Rightarrow> rat" where
  "nearest x = (if x = 0 then 0 else of_int (round_half_even (x / quantum x)) * quantum x)"

text \<open>
  The correctly rounded result of an operation whose exact value is \<open>x\<close>
  (round to nearest, ties to even; overflow gives an infinity).
\<close>

definition fl :: "rat \<Rightarrow> pyfloat" where
  "fl x =
     (let y = nearest x
      in if 2 powi 1024 \<le> y then PInf else if y \<le> - (2 powi 1024) then NInf else Fin y)"

text \<open>A rational is a binary64 value when rounding leaves it unchanged.\<close>

definition is_double :: "rat \<Rightarrow> bool" where
  "is_double x = (fl x = Fin x)"

fun is_float :: "pyfloat \<Rightarrow> bool" where
  "is_float (Fin x) = is_double x"
| "is_float _ = True"

fun is_nan :: "pyfloat \<Rightarrow> bool" where
  "is_nan NaN = True"
| "is_nan _ = False"

text \<open>The comparisons \<open><\<close>, \<open><=\<close>, \<open>>\<close>, \<open>>=\<close> and \<open>==\<close> of floats: false on NaN.\<close>

fun flt :: "pyfloat \<Rightarrow> pyfloat \<Rightarrow> bool" where
  "flt (Fin x) (Fin y) = (x < y)"
| "flt (Fin x) PInf = True"
| "flt NInf (Fin y) = True"
| "flt NInf PInf = True"
| "flt _ _ = False"

fun fle :: "pyfloat \<Rightarrow> pyfloat \<Rightarrow> bool" where
  "fle (Fin x) (Fin y) = (x \<le> y)"
| "fle NaN _ = False"
| "fle _ NaN = False"
| "fle NInf _ = True"
| "fle _ PInf = True"
| "fle _ _ = False"

definition fgt :: "pyfloat \<Rightarrow> pyfloat \<Rightarrow> bool" where
  "fgt a b = flt b a"

definition fge :: "pyfloat \<Rightarrow> pyfloat \<Rightarrow> bool" where
  "fge a b = fle b a"

definition feq :: "pyfloat \<Rightarrow> pyfloat \<Rightarrow> bool" where
  "feq a b = (\<not> is_nan a \<and> a = b)"

text \<open>Float addition and subtraction (\<open>a + b\<close>, \<open>a - b\<close>).\<close>

fun fadd :: "pyfloat \<Rightarrow> pyfloat \<Rightarrow> pyfloat" where
  "fadd (Fin x) (Fin y) = fl (x + y)"
| "fadd NaN _ = NaN"
| "fadd _ NaN = NaN"
| "fadd PInf NInf = NaN"
| "fadd NInf PInf = NaN"
| "fadd PInf _ = PInf"
| "fadd NInf _ = NInf"
| "fadd (Fin x) b = b"

fun fneg :: "pyfloat \<Rightarrow> pyfloat" where
  "fneg (Fin x) = Fin (- x)"
| "fneg PInf = NInf"
| "fneg NInf = PInf"
| "fneg NaN = NaN"

fun fsub :: "pyfloat \<Rightarrow> pyfloat \<Rightarrow> pyfloat" where
  "fsub (Fin x) (Fin y) = fl (x - y)"
| "fsub a b = fadd a (fneg b)"

text \<open>
  The built-ins \<open>max(a, b)\<close> and \<open>min(a, b)\<close>: the first argument is kept unless the
  second compares greater (smaller), so a NaN in second place is never chosen.
\<close>

definition py_max :: "pyfloat \<Rightarrow> pyfloat \<Rightarrow> pyfloat" where
  "py_max a b = (if fgt b a then b else a)"

definition py_min :: "pyfloat \<Rightarrow> pyfloat \<Rightarrow> pyfloat" where
  "py_min a b = (if flt b a then b else a)"

text \<open>
  \<open>round(x, ndigits)\<close> on a float, for \<open>0 \<le> ndigits\<close> (the module uses 3): the exact
  value of \<open>x\<close> is rounded to \<open>ndigits\<close> decimals, ties to even, and the decimal
  obtained is converted back to the nearest float. Infinities and NaN round to themselves.
\<close>

fun py_round :: "pyfloat \<Rightarrow> nat \<Rightarrow> pyfloat" where
  "py_round (Fin x) ndigits = fl (of_int (round_half_even (x * 10 ^ ndigits)) / 10 ^ ndigits)"
| "py_round a ndigits = a"


section \<open>The timecode validator\<close>

text \<open>
  The four messages of \<open>sanitize_timecodes\<close>; the specification calls them
  InvalidDuration, SelectionTooShort, StartOutOfBounds and EndNotAfterStart.
\<close>

definition InvalidDuration :: exn where
  "InvalidDuration = (ProcessingError, ''Video duration is zero.'')"

definition SelectionTooShort :: exn where
  "SelectionTooShort = (ProcessingError, ''Clip selection is too short. Increase the end time.'')"

definition StartOutOfBounds :: exn where
  "StartOutOfBounds = (ProcessingError, ''Start time falls outside the video.'')"

definition EndNotAfterStart :: exn where
  "EndNotAfterStart = (ProcessingError, ''End time must be greater than start time.'')"

text \<open>
  \<^verbatim>\<open>def sanitize_timecodes(start, end, duration, min_length=0.5)\<close>, on float
  arguments (\<open>float(x)\<close> is then the identity).
\<close>

definition sanitize_timecodes ::
  "pyfloat \<Rightarrow> pyfloat \<Rightarrow> pyfloat \<Rightarrow> pyfloat \<Rightarrow> exn + (pyfloat \<times> pyfloat)" where
  "sanitize_timecodes start end duration min_length =
     (if fle duration (Fin 0) then Inl InvalidDuration
      else
        let start' = py_max (Fin 0) start;
            end' = py_min end duration
        in if flt (fsub end' start') min_length then Inl SelectionTooShort
           else if fge start' duration then Inl StartOutOfBounds
           else if fle end' start' then Inl EndNotAfterStart
           else Inr (py_round start' 3, py_round end' 3))"

text \<open>The default value of \<open>min_length\<close>.\<close>

definition default_min_length :: pyfloat where
  "default_min_length = Fin (1/2)"



section \<open>The crop geometry\<close>

subsection \<open>More float and integer operations\<close>

text \<open>Running a computation that may raise, and continuing with its value.\<close>

definition and_then :: "exn + 'a \<Rightarrow> ('a \<Rightarrow> exn + 'b) \<Rightarrow> exn + 'b" where
  "and_then m f = (case m of Inl e \<Rightarrow> Inl e | Inr v \<Rightarrow> f v)"

text \<open>
  \<open>a / b\<close> on two integers (true division): the exact quotient, correctly rounded;
  \<open>OverflowError\<close> when it is too large for a float.
\<close>

definition int_truediv :: "int \<Rightarrow> int \<Rightarrow> exn + pyfloat" where
  "int_truediv a b =
     (if b = 0 then Inl (ZeroDivisionError, ''division by zero'')
      else case fl (of_int a / of_int b) of
             Fin q \<Rightarrow> Inr (Fin q)
           | _ \<Rightarrow> Inl (OverflowError, ''integer division result too large for a float''))"

text \<open>The conversion of an integer operand to a float, as mixed arithmetic performs it.\<close>

definition float_of_int :: "int \<Rightarrow> exn + pyfloat" where
  "float_of_int n =
     (case fl (of_int n) of
        Fin q \<Rightarrow> Inr (Fin q)
      | _ \<Rightarrow> Inl (OverflowError, ''int too large to convert to float''))"

fun fabs :: "pyfloat \<Rightarrow> pyfloat" where
  "fabs (Fin x) = Fin \<bar>x\<bar>"
| "fabs NInf = PInf"
| "fabs a = a"

fun is_inf :: "pyfloat \<Rightarrow> bool" where
  "is_inf PInf = True"
| "is_inf NInf = True"
| "is_inf _ = False"

text \<open>Float multiplication \<open>a * b\<close>; an infinity times zero is NaN.\<close>

fun fmul :: "pyfloat \<Rightarrow> pyfloat \<Rightarrow> pyfloat" where
  "fmul (Fin x) (Fin y) = fl (x * y)"
| "fmul NaN _ = NaN"
| "fmul _ NaN = NaN"
| "fmul (Fin x) b = (if x = 0 then NaN else if 0 < x then b else fneg b)"
| "fmul a (Fin y) = (if y = 0 then NaN else if 0 < y then a else fneg a)"
| "fmul a b = (if a = b then PInf else NInf)"

text \<open>
  Float division \<open>a / b\<close>: Python raises \<open>ZeroDivisionError\<close> on a zero divisor;
  otherwise the IEEE quotient.
\<close>

fun fdiv :: "pyfloat \<Rightarrow> pyfloat \<Rightarrow> exn + pyfloat" where
  "fdiv (Fin x) (Fin y) =
     (if y = 0 then Inl (ZeroDivisionError, ''float division by zero'') else Inr (fl (x / y)))"
| "fdiv NaN (Fin y) =
     (if y = 0 then Inl (ZeroDivisionError, ''float division by zero'') else Inr NaN)"
| "fdiv a (Fin y) =
     (if y = 0 then Inl (ZeroDivisionError, ''float division by zero'')
      else Inr (if 0 < y then a else fneg a))"
| "fdiv _ NaN = Inr NaN"
| "fdiv (Fin x) _ = Inr (Fin 0)"
| "fdiv _ _ = Inr NaN"

text \<open>\<open>n * x\<close> and \<open>n / x\<close> with an integer \<open>n\<close> and a float \<open>x\<close>.\<close>

definition int_mul_float :: "int \<Rightarrow> pyfloat \<Rightarrow> exn + pyfloat" where
  "int_mul_float n x = and_then (float_of_int n) (\<lambda>f. Inr (fmul f x))"

definition int_div_float :: "int \<Rightarrow> pyfloat \<Rightarrow> exn + pyfloat" where
  "int_div_float n x = and_then (float_of_int n) (\<lambda>f. fdiv f x)"

text \<open>
  \<open>round(x)\<close> with one argument: the nearest integer, ties to even; it raises on an
  infinity or a NaN. (\<open>int(...)\<close> of the integer obtained is the identity.)
\<close>

fun py_round_int :: "pyfloat \<Rightarrow> exn + int" where
  "py_round_int (Fin x) = Inr (round_half_even x)"
| "py_round_int NaN = Inl (ValueError, ''cannot convert float NaN to integer'')"
| "py_round_int _ = Inl (OverflowError, ''cannot convert float infinity to integer'')"

text \<open>
  \<open>math.isclose(a, b, rel_tol=rel_tol)\<close> with the default \<open>abs_tol = 0.0\<close>, for
  \<open>rel_tol \<ge> 0\<close>: equal values are close, an infinity is close only to itself, and
  otherwise the distance is compared with \<open>rel_tol\<close> times either magnitude.
\<close>

definition isclose :: "pyfloat \<Rightarrow> pyfloat \<Rightarrow> pyfloat \<Rightarrow> bool" where
  "isclose a b rel_tol =
     (if feq a b then True
      else if is_inf a \<or> is_inf b then False
      else let diff = fabs (fsub b a)
           in fle diff (fabs (fmul rel_tol b)) \<or> fle diff (fabs (fmul rel_tol a))
              \<or> fle diff (Fin 0))"

text \<open>The float denoted by the literal \<open>1e-03\<close>.\<close>

definition rel_tol_1e_3 :: pyfloat where
  "rel_tol_1e_3 = fl (1 / 1000)"

subsection \<open>\<open>CropBox\<close> and \<open>compute_crop_box\<close>\<close>

record CropBox =
  x1 :: int
  y1 :: int
  x2 :: int
  y2 :: int

text \<open>The properties \<open>CropBox.width\<close> and \<open>CropBox.height\<close>.\<close>

definition width :: "CropBox \<Rightarrow> int" where
  "width box = x2 box - x1 box"

definition height :: "CropBox \<Rightarrow> int" where
  "height box = y2 box - y1 box"

definition InvalidDimensions :: exn where
  "InvalidDimensions = (ProcessingError, ''Invalid dimensions for crop computation.'')"

text \<open>
  \<^verbatim>\<open>def compute_crop_box(width, height, target_width, target_height)\<close> on integers
  (\<open>//\<close> is floor division, which \<open>div\<close> is on a positive divisor).
\<close>

definition compute_crop_box :: "int \<Rightarrow> int \<Rightarrow> int \<Rightarrow> int \<Rightarrow> exn + CropBox" where
  "compute_crop_box w h target_width target_height =
     (if w \<le> 0 \<or> h \<le> 0 \<or> target_width \<le> 0 \<or> target_height \<le> 0
      then Inl InvalidDimensions
      else
        and_then (int_truediv w h) (\<lambda>src_ratio.
        and_then (int_truediv target_width target_height) (\<lambda>dest_ratio.
          if isclose src_ratio dest_ratio rel_tol_1e_3
          then Inr \<lparr>x1 = 0, y1 = 0, x2 = w, y2 = h\<rparr>
          else if fgt src_ratio dest_ratio
          then
            and_then (int_mul_float h dest_ratio) (\<lambda>p.
            and_then (py_round_int p) (\<lambda>new_width.
              let offset_x = (w - new_width) div 2
              in Inr \<lparr>x1 = offset_x, y1 = 0, x2 = offset_x + new_width, y2 = h\<rparr>))
          else
            and_then (int_div_float w dest_ratio) (\<lambda>p.
            and_then (py_round_int p) (\<lambda>new_height.
              let offset_y = (h - new_height) div 2
              in Inr \<lparr>x1 = 0, y1 = offset_y, x2 = w, y2 = offset_y + new_height\<rparr>)))))"


section \<open>The export engine\<close>

subsection \<open>Paths, integers as text, and the file system\<close>

text \<open>
  A \<open>pathlib.Path\<close> is the list of its parts; a root part is \<open>/\<close>. The arguments
  \<open>source\<close> and \<open>output_dir\<close> are taken after their conversion by \<open>Path(...)\<close>.
\<close>

type_synonym path = "string list"

text \<open>\<open>str(path)\<close>.\<close>

fun path_str :: "path \<Rightarrow> string" where
  "path_str [] = ''.''"
| "path_str [p] = p"
| "path_str (p # q # ps) =
     (if p = ''/'' then p @ path_str (q # ps) else p @ ''/'' @ path_str (q # ps))"

text \<open>\<open>path.name\<close>: the last part, unless it is the root.\<close>

definition name_of :: "path \<Rightarrow> string" where
  "name_of p = (case rev p of [] \<Rightarrow> '''' | x # _ \<Rightarrow> if x = ''/'' then '''' else x)"

text \<open>
  \<open>path.stem\<close>: with \<open>i = name.rfind('.')\<close>, the name up to \<open>i\<close> when
  \<open>0 < i < len(name) - 1\<close>, and the whole name otherwise.
\<close>

definition stem :: "path \<Rightarrow> string" where
  "stem p =
     (let name = name_of p in
      if CHR ''.'' \<notin> set name then name
      else
        let i = length name - 1 - length (takeWhile (\<lambda>c. c \<noteq> CHR ''.'') (rev name))
        in if 0 < i \<and> i < length name - 1 then take i name else name)"

text \<open>\<open>path / filename\<close>, for a file name that is a single relative part.\<close>

definition path_join :: "path \<Rightarrow> string \<Rightarrow> path" where
  "path_join dir filename = dir @ [filename]"

text \<open>\<open>str(n)\<close> of an integer (what \<open>f"{n}"\<close> inserts): its decimal digits.\<close>

fun digits :: "nat \<Rightarrow> string" where
  "digits n =
     (if n < 10 then [''0123456789'' ! n]
      else digits (n div 10) @ [''0123456789'' ! (n mod 10)])"

definition str_int :: "int \<Rightarrow> string" where
  "str_int n = (if n < 0 then ''-'' @ digits (nat (- n)) else digits (nat n))"

text \<open>
  \<open>int(x)\<close> of a float: truncation towards zero; it raises on an infinity or a NaN.
\<close>

fun py_int :: "pyfloat \<Rightarrow> exn + int" where
  "py_int (Fin x) = Inr (if 0 \<le> x then \<lfloor>x\<rfloor> else \<lceil>x\<rceil>)"
| "py_int NaN = Inl (ValueError, ''cannot convert float NaN to integer'')"
| "py_int _ = Inl (OverflowError, ''cannot convert float infinity to integer'')"

text \<open>
  The state of the file system: the set of the paths of the files that exist
  (directories and permissions are not modelled).
\<close>

type_synonym fs = "path set"

subsection \<open>The collaborators\<close>

text \<open>What the module reads of a moviepy clip.\<close>

record clip =
  clip_w :: int
  clip_h :: int
  clip_fps :: "pyfloat option"
  clip_duration :: "pyfloat option"

text \<open>The keyword arguments of \<open>write_videofile\<close>.\<close>

record encode_settings =
  codec :: string
  audio_codec :: string
  audio_bitrate :: string
  fps :: pyfloat
  preset :: string
  threads :: nat
  temp_audiofile :: path
  remove_temp :: bool

text \<open>
  The libraries the module calls, as parameters: each call returns a value or raises
  (interrupts, which are not subclasses of \<open>Exception\<close>, are not modelled).
  \<^item> \<open>mkdir\<close>: \<open>output_dir.mkdir(parents=True, exist_ok=True)\<close>;
  \<^item> \<open>probe\<close>: the \<open>with VideoFileClip(str(path)) as clip\<close> block of
    \<open>get_video_metadata\<close>, which reads the clip and \<open>path.stat().st_size\<close>;
  \<^item> \<open>open_clip\<close>, \<open>close_clip\<close>: entering and leaving
    \<open>with VideoFileClip(str(source)) as clip\<close>;
  \<^item> \<open>subclip\<close>, \<open>crop\<close>, \<open>resize\<close>: \<open>clip.subclip\<close>, \<open>clip.fx(vfx_crop, ...)\<close>,
    \<open>clip.resize(newsize=...)\<close>;
  \<^item> \<open>mktemp\<close>: the name of the file that
    \<open>tempfile.NamedTemporaryFile(delete=False, suffix=".m4a")\<close> creates;
  \<^item> \<open>write_videofile\<close>: the encoder, which changes the file system and may raise
    after having written some of its output;
  \<^item> \<open>cpu_count\<close>: \<open>os.cpu_count()\<close>.
\<close>

record collaborators =
  mkdir :: "path \<Rightarrow> exn option"
  probe :: "path \<Rightarrow> exn + (clip \<times> nat)"
  open_clip :: "path \<Rightarrow> exn + clip"
  close_clip :: "clip \<Rightarrow> exn option"
  subclip :: "clip \<Rightarrow> pyfloat \<Rightarrow> pyfloat \<Rightarrow> exn + clip"
  crop :: "clip \<Rightarrow> CropBox \<Rightarrow> exn + clip"
  resize :: "clip \<Rightarrow> int \<times> int \<Rightarrow> exn + clip"
  mktemp :: "fs \<Rightarrow> exn + path"
  write_videofile :: "clip \<Rightarrow> path \<Rightarrow> encode_settings \<Rightarrow> fs \<Rightarrow> exn option \<times> fs"
  cpu_count :: "nat option"

subsection \<open>\<open>get_video_metadata\<close>\<close>

record metadata =
  meta_duration :: pyfloat
  meta_fps :: "pyfloat option"
  meta_width :: int
  meta_height :: int
  filesize :: nat

text \<open>\<open>except OSError\<close> also catches the subclasses of \<open>OSError\<close>.\<close>

fun is_OSError :: "exn_class \<Rightarrow> bool" where
  "is_OSError OSError = True"
| "is_OSError FileNotFoundError = True"
| "is_OSError _ = False"

text \<open>\<open>x or d\<close> on an optional float: \<open>None\<close> and zero are false.\<close>

fun truthy :: "pyfloat option \<Rightarrow> bool" where
  "truthy None = False"
| "truthy (Some x) = (\<not> feq x (Fin 0))"

fun or_else :: "pyfloat option \<Rightarrow> pyfloat \<Rightarrow> pyfloat" where
  "or_else None d = d"
| "or_else (Some x) d = (if feq x (Fin 0) then d else x)"

text \<open>\<^verbatim>\<open>def get_video_metadata(path)\<close>.\<close>

definition get_video_metadata :: "collaborators \<Rightarrow> fs \<Rightarrow> path \<Rightarrow> exn + metadata" where
  "get_video_metadata env files path =
     (if path \<notin> files then Inl (ProcessingError, ''Video not found at '' @ path_str path)
      else
        case probe env path of
          Inl (cls, msg) \<Rightarrow>
            if is_OSError cls
            then Inl (ProcessingError, ''Unable to read video metadata: '' @ msg)
            else Inl (cls, msg)
        | Inr (c, nbytes) \<Rightarrow>
            Inr \<lparr>meta_duration = or_else (clip_duration c) (Fin 0),
                 meta_fps = (if truthy (clip_fps c) then clip_fps c else None),
                 meta_width = clip_w c,
                 meta_height = clip_h c,
                 filesize = nbytes\<rparr>)"

subsection \<open>\<open>_apply_vertical_transform\<close> and \<open>export_vertical_clip\<close>\<close>

text \<open>\<^verbatim>\<open>def _apply_vertical_transform(clip, resolution)\<close>.\<close>

definition apply_vertical_transform ::
  "collaborators \<Rightarrow> clip \<Rightarrow> int \<times> int \<Rightarrow> exn + clip" where
  "apply_vertical_transform env c resolution =
     (let (target_width, target_height) = resolution in
      and_then (compute_crop_box (clip_w c) (clip_h c) target_width target_height) (\<lambda>crop_box.
      and_then (if width crop_box \<noteq> clip_w c \<or> height crop_box \<noteq> clip_h c
                then crop env c crop_box else Inr c) (\<lambda>c'.
      resize env c' resolution)))"

definition ExportFailed :: "string \<Rightarrow> exn" where
  "ExportFailed msg = (ProcessingError, ''Unable to export clip: '' @ msg)"

text \<open>
  The file name \<^verbatim>\<open>f"short_{Path(source).stem}_{int(trimmed_start)}_{int(trimmed_end)}.mp4"\<close>,
  from the two integers.
\<close>

definition output_filename :: "path \<Rightarrow> int \<Rightarrow> int \<Rightarrow> string" where
  "output_filename source start_sec end_sec =
     ''short_'' @ stem source @ ''_'' @ str_int start_sec @ ''_'' @ str_int end_sec @ ''.mp4''"

text \<open>
  The keyword arguments that \<open>export_vertical_clip\<close> passes to the encoder;
  \<open>fps = processed.fps or clip.fps or 30\<close> and
  \<open>threads = min(4, os.cpu_count() or 1)\<close>.
\<close>

definition encoder_settings ::
  "collaborators \<Rightarrow> clip \<Rightarrow> clip \<Rightarrow> string \<Rightarrow> string \<Rightarrow> path \<Rightarrow> encode_settings" where
  "encoder_settings env c processed preset_arg audio_bitrate_arg temp_audio =
     \<lparr>codec = ''libx264'', audio_codec = ''aac'',
      audio_bitrate = audio_bitrate_arg,
      fps = or_else (clip_fps processed) (or_else (clip_fps c) (Fin 30)),
      preset = preset_arg,
      threads = min 4 (case cpu_count env of None \<Rightarrow> 1 | Some n \<Rightarrow> if n = 0 then 1 else n),
      temp_audiofile = temp_audio, remove_temp = True\<rparr>"

text \<open>
  The body of the \<open>with VideoFileClip(str(source)) as clip\<close> block. The \<open>finally\<close>
  clause closes the two derived clips, whose exceptions are suppressed, and unlinks the
  temporary audio file, where a missing file is no error: the file system loses that
  path on both exits.
\<close>

definition export_body ::
  "collaborators \<Rightarrow> fs \<Rightarrow> clip \<Rightarrow> path \<Rightarrow> pyfloat \<Rightarrow> pyfloat \<Rightarrow> path \<Rightarrow> int \<times> int
     \<Rightarrow> string \<Rightarrow> string \<Rightarrow> (exn + path) \<times> fs" where
  "export_body env files c source trimmed_start trimmed_end output_dir resolution
       preset_arg audio_bitrate_arg =
     (case subclip env c trimmed_start trimmed_end of
        Inl e \<Rightarrow> (Inl e, files)
      | Inr sub \<Rightarrow>
     (case apply_vertical_transform env sub resolution of
        Inl e \<Rightarrow> (Inl e, files)
      | Inr processed \<Rightarrow>
     (case py_int trimmed_start of
        Inl e \<Rightarrow> (Inl e, files)
      | Inr start_sec \<Rightarrow>
     (case py_int trimmed_end of
        Inl e \<Rightarrow> (Inl e, files)
      | Inr end_sec \<Rightarrow>
     (let output_path = path_join output_dir (output_filename source start_sec end_sec)
      in
     (case mktemp env files of
        Inl e \<Rightarrow> (Inl e, files)
      | Inr temp_audio \<Rightarrow>
     (let (raised, files') =
             write_videofile env processed output_path
               (encoder_settings env c processed preset_arg audio_bitrate_arg temp_audio)
               (insert temp_audio files);
          files'' = files' - {temp_audio}
      in case raised of
           Some (cls, msg) \<Rightarrow> (Inl (ExportFailed msg), files'')
         | None \<Rightarrow> (Inr output_path, files''))))))))"

text \<open>
  Leaving the \<open>with\<close> block closes the source clip, on a normal exit and on an
  exception alike; an exception of \<open>close\<close> replaces the outcome of the block.
\<close>

definition with_clip :: "collaborators \<Rightarrow> clip \<Rightarrow> (exn + 'a) \<times> fs \<Rightarrow> (exn + 'a) \<times> fs" where
  "with_clip env c outcome =
     (case close_clip env c of Some e \<Rightarrow> (Inl e, snd outcome) | None \<Rightarrow> outcome)"

text \<open>
  \<^verbatim>\<open>def export_vertical_clip(source, start, end, output_dir, resolution, preset, audio_bitrate)\<close>:
  the result, or the exception raised, and the file system afterwards.
\<close>

definition export_vertical_clip ::
  "collaborators \<Rightarrow> fs \<Rightarrow> path \<Rightarrow> pyfloat \<Rightarrow> pyfloat \<Rightarrow> path \<Rightarrow> int \<times> int \<Rightarrow> string \<Rightarrow> string
     \<Rightarrow> (exn + path) \<times> fs" where
  "export_vertical_clip env files source start end output_dir resolution preset_arg
       audio_bitrate_arg =
     (case mkdir env output_dir of
        Some e \<Rightarrow> (Inl e, files)
      | None \<Rightarrow>
     (case get_video_metadata env files source of
        Inl e \<Rightarrow> (Inl e, files)
      | Inr md \<Rightarrow>
     (case sanitize_timecodes start end (meta_duration md) default_min_length of
        Inl e \<Rightarrow> (Inl e, files)
      | Inr (trimmed_start, trimmed_end) \<Rightarrow>
     (case open_clip env source of
        Inl e \<Rightarrow> (Inl e, files)
      | Inr c \<Rightarrow>
          with_clip env c
            (export_body env files c source trimmed_start trimmed_end output_dir resolution
               preset_arg audio_bitrate_arg)))))"

subsection \<open>Sample collaborators\<close>

text \<open>
  A landscape clip of ten seconds, and collaborators that accept every call: the encoder
  writes its output file and then raises what it is given (or nothing).
\<close>

definition sample_clip :: clip where
  "sample_clip = \<lparr>clip_w = 1920, clip_h = 1080, clip_fps = Some (Fin 30),
                   clip_duration = Some (Fin 10)\<rparr>"

definition sample_env :: "exn option \<Rightarrow> collaborators" where
  "sample_env raised =
     \<lparr>mkdir = (\<lambda>dir. None),
      probe = (\<lambda>p. Inr (sample_clip, 1000)),
      open_clip = (\<lambda>p. Inr sample_clip),
      close_clip = (\<lambda>c. None),
      subclip = (\<lambda>c a b. Inr c),
      crop = (\<lambda>c box. Inr (c\<lparr>clip_w := width box, clip_h := height box\<rparr>)),
      resize = (\<lambda>c size. Inr (c\<lparr>clip_w := fst size, clip_h := snd size\<rparr>)),
      mktemp = (\<lambda>files. Inr [''tmp'', ''audio.m4a'']),
      write_videofile = (\<lambda>c p settings files. (raised, insert p files)),
      cpu_count = Some 8\<rparr>"

section \<open>Properties of the float model\<close>

lemma rhe_lower: "x - 1/2 \<le> of_int (round_half_even x)"
  unfolding round_half_even_def Let_def by (auto; linarith)

lemma rhe_upper: "of_int (round_half_even x) \<le> x + 1/2"
  unfolding round_half_even_def Let_def by (auto; linarith)

lemma rhe_of_int [simp]: "round_half_even (of_int n) = n"
  unfolding round_half_even_def Let_def by simp

lemma rhe_mono:
  assumes "x \<le> y"
  shows "round_half_even x \<le> round_half_even y"
proof (cases "\<lfloor>x\<rfloor> = \<lfloor>y\<rfloor>")
  case True
  then show ?thesis using assms unfolding round_half_even_def Let_def by auto
next
  case False
  then have "\<lfloor>x\<rfloor> + 1 \<le> \<lfloor>y\<rfloor>" using floor_mono[OF assms] by linarith
  moreover have "round_half_even x \<le> \<lfloor>x\<rfloor> + 1" unfolding round_half_even_def Let_def by auto
  moreover have "\<lfloor>y\<rfloor> \<le> round_half_even y" unfolding round_half_even_def Let_def by auto
  ultimately show ?thesis by linarith
qed

lemma rhe_minus: "round_half_even (- x) = - round_half_even x"
proof (cases "x = of_int \<lfloor>x\<rfloor>")
  case True
  then obtain n where "x = of_int n" by blast
  then show ?thesis by (simp flip: of_int_minus)
next
  case False
  then have f: "\<lfloor>- x\<rfloor> = - \<lfloor>x\<rfloor> - 1"
    by (metis ceiling_altdef ceiling_def minus_diff_eq add.inverse_inverse uminus_add_conv_diff)
  show ?thesis unfolding round_half_even_def Let_def f using False
    by (auto simp: field_simps)
qed

lemma two_powi_less_iff [simp]: "(2::rat) powi m < 2 powi n \<longleftrightarrow> m < n"
proof
  assume "(2::rat) powi m < 2 powi n"
  then show "m < n"
    using power_int_increasing[of n m "2::rat"] by (cases "m < n") auto
next
  assume "m < n"
  then show "(2::rat) powi m < 2 powi n"
    by (intro power_int_strict_increasing) auto
qed

lemma two_powi_le_iff [simp]: "(2::rat) powi m \<le> 2 powi n \<longleftrightarrow> m \<le> n"
  using two_powi_less_iff[of n m] by (simp only: not_less[symmetric])

lemma two_powi_bitlen:
  assumes "0 < a"
  shows "(2::rat) powi (bitlen a - 1) \<le> of_int a" "of_int a < (2::rat) powi (bitlen a)"
proof -
  have b1: "1 \<le> bitlen a" using assms by (auto simp: bitlen_alt_def)
  from bitlen_bounds[OF assms]
  have l: "2 ^ nat (bitlen a - 1) \<le> a" and u: "a < 2 ^ nat (bitlen a)" by auto
  have "(2::rat) powi (bitlen a - 1) = of_int (2 ^ nat (bitlen a - 1))"
    using b1 by (simp add: power_int_def)
  also have "\<dots> \<le> of_int a" using l by (simp only: of_int_le_iff)
  finally show "(2::rat) powi (bitlen a - 1) \<le> of_int a" .
  have "of_int a < (of_int (2 ^ nat (bitlen a)) :: rat)" using u by (simp only: of_int_less_iff)
  also have "\<dots> = 2 powi (bitlen a)" using b1 by (simp add: power_int_def)
  finally show "of_int a < (2::rat) powi (bitlen a)" .
qed

lemma binexp_bounds:
  assumes "0 < x"
  shows "2 powi binexp x \<le> x" "x < 2 powi (binexp x + 1)"
proof -
  obtain a b where q: "quotient_of x = (a, b)" by (cases "quotient_of x")
  have b: "0 < b" using q by (rule quotient_of_denom_pos)
  have x: "x = of_int a / of_int b" using q by (rule quotient_of_div)
  have a: "0 < a" using assms b x by (simp add: zero_less_divide_iff)
  define k where "k = bitlen a - bitlen b"
  note A = two_powi_bitlen[OF a] and B = two_powi_bitlen[OF b]
  have bpos: "(0::rat) < of_int b" using b by simp
  have "x < 2 powi (bitlen a) / 2 powi (bitlen b - 1)"
    unfolding x using A(2) B(1) bpos a by (intro frac_less) auto
  also have "\<dots> = 2 powi (k + 1)"
  proof -
    have "k + 1 = bitlen a - (bitlen b - 1)" unfolding k_def by simp
    then show ?thesis by (simp only: power_int_diff[of "2::rat", simplified])
  qed
  finally have up: "x < 2 powi (k + 1)" .
  have "2 powi (k - 1) = (2::rat) powi (bitlen a - 1) / 2 powi (bitlen b)"
  proof -
    have "k - 1 = (bitlen a - 1) - bitlen b" unfolding k_def by simp
    then show ?thesis by (simp only: power_int_diff[of "2::rat", simplified])
  qed
  also have "\<dots> \<le> x"
    unfolding x using A(1) B(2) bpos a by (intro frac_le) auto
  finally have lo: "2 powi (k - 1) \<le> x" .
  have e: "binexp x = (if 2 powi k \<le> x then k else k - 1)"
    unfolding binexp_def q k_def by simp
  show "2 powi binexp x \<le> x" unfolding e using lo by auto
  show "x < 2 powi (binexp x + 1)" unfolding e using up by auto
qed

lemma binexp_unique:
  assumes "(2::rat) powi e \<le> x" "x < 2 powi (e + 1)"
  shows "binexp x = e"
proof -
  have x: "0 < x" using assms(1) by (meson less_le_trans zero_less_power_int zero_less_numeral)
  note B = binexp_bounds[OF x]
  have "(2::rat) powi e < 2 powi (binexp x + 1)" using assms(1) B(2) by (rule le_less_trans)
  then have 1: "e < binexp x + 1" by simp
  have "(2::rat) powi binexp x < 2 powi (e + 1)" using B(1) assms(2) by (rule le_less_trans)
  then have 2: "binexp x < e + 1" by simp
  from 1 2 show ?thesis by simp
qed

lemma binexp_mono:
  assumes "0 < x" "x \<le> y"
  shows "binexp x \<le> binexp y"
proof -
  have y: "0 < y" using assms by simp
  have "(2::rat) powi binexp x \<le> x" using binexp_bounds(1)[OF assms(1)] .
  also have "x \<le> y" by fact
  also have "y < 2 powi (binexp y + 1)" using binexp_bounds(2)[OF y] .
  finally show ?thesis by simp
qed

lemma quantum_pos [simp]: "0 < quantum x"
  unfolding quantum_def by simp

lemma quantum_nonneg [simp]: "0 \<le> quantum x"
  unfolding quantum_def by simp

lemma quantum_minus [simp]: "quantum (- x) = quantum x"
  unfolding quantum_def by simp

lemma nearest_0 [simp]: "nearest 0 = 0"
  unfolding nearest_def by simp

lemma nearest_minus: "nearest (- x) = - nearest x"
  unfolding nearest_def by (simp add: rhe_minus)

lemma nearest_nonneg:
  assumes "0 \<le> x"
  shows "0 \<le> nearest x"
proof -
  have "0 \<le> x / quantum x" using assms by simp
  then have "round_half_even 0 \<le> round_half_even (x / quantum x)" by (rule rhe_mono)
  then have "0 \<le> round_half_even (x / quantum x)" using rhe_of_int[of 0] by simp
  then show ?thesis unfolding nearest_def by simp
qed

lemma nearest_upper:
  assumes "0 < x"
  shows "nearest x \<le> 2 powi (max (binexp x) (- 1022) + 1)"
proof -
  define e where "e = max (binexp x) (- 1022)"
  have q: "quantum x = 2 powi (e - 52)" unfolding quantum_def e_def using assms by simp
  have "x < 2 powi (binexp x + 1)" using binexp_bounds(2)[OF assms] .
  also have "\<dots> \<le> 2 powi (e + 1)" unfolding e_def by simp
  finally have "x / quantum x \<le> 2 powi (e + 1) / quantum x"
    by (intro divide_right_mono) auto
  also have "\<dots> = 2 powi ((e + 1) - (e - 52))" unfolding q
    by (simp only: power_int_diff[of "2::rat", simplified])
  also have "\<dots> = of_int (2 ^ 53)" by simp
  finally have "round_half_even (x / quantum x) \<le> round_half_even (of_int (2 ^ 53))"
    by (rule rhe_mono)
  then have "round_half_even (x / quantum x) \<le> 2 ^ 53" by (simp only: rhe_of_int)
  then have "(of_int (round_half_even (x / quantum x)) :: rat) \<le> of_int (2 ^ 53)"
    by (simp only: of_int_le_iff)
  then have "nearest x \<le> of_int (2 ^ 53) * quantum x"
    unfolding nearest_def using assms by (auto intro!: mult_right_mono)
  also have "\<dots> = 2 powi 53 * 2 powi (e - 52)" unfolding q by simp
  also have "\<dots> = 2 powi (53 + (e - 52))" by (simp only: power_int_add[of "2::rat", simplified])
  also have "53 + (e - 52) = e + 1" by simp
  finally show ?thesis unfolding e_def .
qed

lemma nearest_lower:
  assumes "0 < x" "- 1022 \<le> binexp x"
  shows "2 powi binexp x \<le> nearest x"
proof -
  define e where "e = binexp x"
  have q: "quantum x = 2 powi (e - 52)" unfolding quantum_def e_def using assms by simp
  have "(2::rat) powi (e - (e - 52)) = 2 powi e / quantum x" unfolding q
    by (simp only: power_int_diff[of "2::rat", simplified])
  also have "\<dots> \<le> x / quantum x"
    using binexp_bounds(1)[OF assms(1)] unfolding e_def by (intro divide_right_mono) auto
  finally have "of_int (2 ^ 52) \<le> x / quantum x" by simp
  then have "round_half_even (of_int (2 ^ 52)) \<le> round_half_even (x / quantum x)"
    by (rule rhe_mono)
  then have "2 ^ 52 \<le> round_half_even (x / quantum x)" by (simp only: rhe_of_int)
  then have "(of_int (2 ^ 52) :: rat) \<le> of_int (round_half_even (x / quantum x))"
    by (simp only: of_int_le_iff)
  then have "of_int (2 ^ 52) * quantum x \<le> nearest x"
    unfolding nearest_def using assms by (auto intro!: mult_right_mono)
  moreover have "of_int (2 ^ 52) * quantum x = 2 powi 52 * 2 powi (e - 52)" unfolding q by simp
  moreover have "\<dots> = 2 powi (52 + (e - 52))"
    by (simp only: power_int_add[of "2::rat", simplified])
  moreover have "52 + (e - 52) = e" by simp
  ultimately show ?thesis unfolding e_def by simp
qed

lemma nearest_mono_pos:
  assumes "0 < x" "x \<le> y"
  shows "nearest x \<le> nearest y"
proof -
  have y: "0 < y" using assms by simp
  define ex where "ex = max (binexp x) (- 1022)"
  define ey where "ey = max (binexp y) (- 1022)"
  have le: "ex \<le> ey" unfolding ex_def ey_def using binexp_mono[OF assms] by simp
  show ?thesis
  proof (cases "ex = ey")
    case True
    then have q: "quantum x = quantum y"
      unfolding quantum_def ex_def ey_def using assms y by simp
    have "x / quantum y \<le> y / quantum y" using assms by (intro divide_right_mono) auto
    then have "round_half_even (x / quantum y) \<le> round_half_even (y / quantum y)"
      by (rule rhe_mono)
    then have "(of_int (round_half_even (x / quantum y)) :: rat)
        \<le> of_int (round_half_even (y / quantum y))"
      by (simp only: of_int_le_iff)
    then show ?thesis unfolding nearest_def q using assms y by (auto intro!: mult_right_mono)
  next
    case False
    with le have lt: "ex + 1 \<le> ey" by simp
    then have ey: "- 1022 \<le> binexp y" "ey = binexp y" unfolding ex_def ey_def by auto
    have "nearest x \<le> 2 powi (ex + 1)" using nearest_upper[OF assms(1)] unfolding ex_def .
    also have "\<dots> \<le> 2 powi ey" using lt by simp
    also have "\<dots> \<le> nearest y" using nearest_lower[OF y ey(1)] ey(2) by simp
    finally show ?thesis .
  qed
qed

lemma nearest_mono:
  assumes "x \<le> y"
  shows "nearest x \<le> nearest y"
proof -
  consider "0 < x" | "x \<le> 0" "0 \<le> y" | "y < 0" by linarith
  then show ?thesis
  proof cases
    case 1
    then show ?thesis using assms by (rule nearest_mono_pos)
  next
    case 2
    have "nearest x = - nearest (- x)" by (simp add: nearest_minus)
    moreover have "0 \<le> nearest (- x)" using 2(1) by (intro nearest_nonneg) simp
    moreover have "0 \<le> nearest y" using 2(2) by (rule nearest_nonneg)
    ultimately show ?thesis by linarith
  next
    case 3
    then have "0 < - y" "- y \<le> - x" using assms by auto
    then have "nearest (- y) \<le> nearest (- x)" by (rule nearest_mono_pos)
    then show ?thesis by (simp add: nearest_minus)
  qed
qed

lemma nearest_error: "\<bar>nearest x - x\<bar> \<le> quantum x / 2"
proof (cases "x = 0")
  case True
  then show ?thesis by simp
next
  case False
  define q where "q = quantum x"
  define m where "m = (of_int (round_half_even (x / q)) :: rat)"
  have qpos: "0 < q" unfolding q_def by simp
  have "\<bar>m - x / q\<bar> \<le> 1 / 2"
    using rhe_lower[of "x / q"] rhe_upper[of "x / q"] unfolding m_def by linarith
  then have "\<bar>m - x / q\<bar> * q \<le> 1 / 2 * q" using qpos by (intro mult_right_mono) auto
  moreover have "\<bar>m - x / q\<bar> * q = \<bar>m * q - x\<bar>"
  proof -
    have "\<bar>m - x / q\<bar> * q = \<bar>m - x / q\<bar> * \<bar>q\<bar>" using qpos by simp
    also have "\<dots> = \<bar>(m - x / q) * q\<bar>" by (simp only: abs_mult)
    also have "(m - x / q) * q = m * q - x" using qpos by (simp add: left_diff_distrib)
    finally show ?thesis .
  qed
  ultimately have "\<bar>m * q - x\<bar> \<le> q / 2" by simp
  moreover have "nearest x = m * q" unfolding nearest_def m_def q_def using False by simp
  ultimately show ?thesis unfolding q_def by simp
qed

lemma rhe_0 [simp]: "round_half_even 0 = 0"
  using rhe_of_int[of 0] by simp

lemma rhe_numeral [simp]: "round_half_even (numeral n) = numeral n"
  using rhe_of_int[of "numeral n"] by simp

lemma floor_rat_numeral_div [simp]:
  "\<lfloor>(numeral a :: rat) / numeral b\<rfloor> = numeral a div numeral b"
  using floor_divide_of_int_eq[of "numeral a" "numeral b", where ?'a = rat] by simp

lemma nearest_normal:
  assumes "2 powi e \<le> \<bar>x\<bar>" "\<bar>x\<bar> < 2 powi (e + 1)" "- 1022 \<le> e"
  shows "nearest x = of_int (round_half_even (x / 2 powi (e - 52))) * 2 powi (e - 52)"
proof -
  have "binexp \<bar>x\<bar> = e" using assms(1,2) by (rule binexp_unique)
  then have q: "quantum x = 2 powi (e - 52)" unfolding quantum_def using assms(3) by simp
  have "(0::rat) < 2 powi e" by simp
  with assms(1) have "0 < \<bar>x\<bar>" by linarith
  then have "x \<noteq> 0" by simp
  then show ?thesis unfolding nearest_def q by simp
qed

lemma fl_not_nan [simp]: "fl x \<noteq> NaN"
  unfolding fl_def Let_def by simp

lemma is_nan_fl [simp]: "\<not> is_nan (fl x)"
  by (cases "fl x") auto

lemma fl_0 [simp]: "fl 0 = Fin 0"
  unfolding fl_def Let_def by simp

lemma fl_mono:
  assumes "x \<le> y"
  shows "fle (fl x) (fl y)"
proof -
  have p: "- (2 powi 1024) < (2::rat) powi 1024" by simp
  show ?thesis
    using nearest_mono[OF assms] p unfolding fl_def Let_def
    by (auto simp del: power_int_numeral)
qed

lemma fl_normal:
  assumes "2 powi e \<le> \<bar>x\<bar>" "\<bar>x\<bar> < 2 powi (e + 1)" "- 1022 \<le> e"
    and "y = of_int (round_half_even (x / 2 powi (e - 52))) * 2 powi (e - 52)"
    and "\<bar>y\<bar> < 2 powi 1024"
  shows "fl x = Fin y"
proof -
  have "nearest x = y" using nearest_normal[OF assms(1-3)] assms(4) by simp
  then show ?thesis using assms(5) unfolding fl_def Let_def by (auto simp del: power_int_numeral)
qed

lemma fl_gt_0:
  assumes "flt (Fin 0) (fl x)"
  shows "0 < x"
proof (rule ccontr)
  assume "\<not> 0 < x"
  then have "x \<le> 0" by simp
  then have "fle (fl x) (fl 0)" by (rule fl_mono)
  then show False using assms by (cases "fl x") auto
qed

lemma flt_imp_not_fle: "flt a b \<Longrightarrow> \<not> fle b a"
  by (cases a; cases b) auto




lemma fle_antisym_not_flt: "fle a b \<Longrightarrow> \<not> flt a b \<Longrightarrow> b = a"
  by (cases a; cases b) auto

lemma fle_NInf: "\<not> is_nan a \<Longrightarrow> fle NInf a"
  by (cases a) auto

lemma fle_PInf: "\<not> is_nan a \<Longrightarrow> fle a PInf"
  by (cases a) auto

lemma fle_not_nan: "fle a b \<Longrightarrow> \<not> is_nan a \<and> \<not> is_nan b"
  by (cases a; cases b) auto

lemma py_max_0_Fin:
  assumes "start \<noteq> PInf"
  shows "\<exists>s. py_max (Fin 0) start = Fin s \<and> 0 \<le> s"
proof (cases start)
  case (Fin x)
  then show ?thesis by (cases "0 < x") (simp_all add: py_max_def fgt_def)
qed (use assms in \<open>simp_all add: py_max_def fgt_def\<close>)


lemma py_max_ge: "\<not> is_nan a \<Longrightarrow> fle a (py_max a b)"
  by (cases a; cases b) (auto simp: py_max_def fgt_def)

lemma py_min_not_nan: "\<not> is_nan a \<Longrightarrow> \<not> is_nan (py_min a b)"
  by (cases a; cases b) (auto simp: py_min_def)

lemma py_min_le: "\<not> is_nan a \<Longrightarrow> \<not> is_nan b \<Longrightarrow> fle (py_min a b) b"
  by (cases a; cases b) (auto simp: py_min_def)

lemma fsub_Fin_pos:
  assumes "flt (Fin 0) m" "\<not> flt (fsub e (Fin s)) m" "\<not> is_nan e"
  shows "flt (Fin s) e"
proof (cases e)
  case (Fin ev)
  have "flt (Fin 0) (fl (ev - s))"
    using assms(1,2) unfolding Fin by (cases m; cases "fl (ev - s)") auto
  then have "0 < ev - s" by (rule fl_gt_0)
  then show ?thesis unfolding Fin by simp
next
  case PInf then show ?thesis by simp
next
  case NInf then show ?thesis using assms(1,2) by (cases m) auto
next
  case NaN then show ?thesis using assms(3) by simp
qed


lemma py_round_not_nan: "\<not> is_nan a \<Longrightarrow> \<not> is_nan (py_round a n)"
  by (cases a) auto

lemma py_round_mono:
  assumes "fle a b"
  shows "fle (py_round a n) (py_round b n)"
proof -
  note nn = fle_not_nan[OF assms]
  show ?thesis
  proof (cases a)
    case a: (Fin x)
    show ?thesis
    proof (cases b)
      case b: (Fin y)
      have "x \<le> y" using assms unfolding a b by simp
      then have "x * 10 ^ n \<le> y * 10 ^ n" by (intro mult_right_mono) auto
      then have "round_half_even (x * 10 ^ n) \<le> round_half_even (y * 10 ^ n)" by (rule rhe_mono)
      then have "(of_int (round_half_even (x * 10 ^ n)) :: rat) \<le> of_int (round_half_even (y * 10 ^ n))"
        by (simp only: of_int_le_iff)
      then have "(of_int (round_half_even (x * 10 ^ n)) :: rat) / 10 ^ n
          \<le> of_int (round_half_even (y * 10 ^ n)) / 10 ^ n"
        by (intro divide_right_mono) auto
      then show ?thesis unfolding a b py_round.simps by (rule fl_mono)
    next
      case PInf then show ?thesis unfolding a by (simp add: fle_PInf)
    next
      case NInf then show ?thesis using assms unfolding a by simp
    next
      case NaN then show ?thesis using assms unfolding a by simp
    qed
  next
    case PInf then show ?thesis using assms by (cases b) auto
  next
    case NInf then show ?thesis using nn by (simp add: fle_NInf py_round_not_nan)
  next
    case NaN then show ?thesis using assms by simp
  qed
qed

lemma py_round_0 [simp]: "py_round (Fin 0) n = Fin 0"
  by simp

lemma fl_double_15_16: "fl (15/16) = Fin (15/16)"
  by (rule fl_normal[where e = "-1"]) (simp_all add: round_half_even_def Let_def)

lemma fl_938_1000: "fl (469/500) = Fin (4224376450473525 / 4503599627370496)"
  by (rule fl_normal[where e = "-1"]) (simp_all add: round_half_even_def Let_def)

lemma fl_double_quarter: "fl (1/4) = Fin (1/4)"
  by (rule fl_normal[where e = "-2"]) (simp_all add: round_half_even_def Let_def)

lemma fl_double_100: "fl 100 = Fin 100"
  by (rule fl_normal[where e = "6"]) (simp_all add: round_half_even_def Let_def)

lemma fl_4001_4: "fl (4001/4) = Fin (4001/4)"
  by (rule fl_normal[where e = "9"]) (simp_all add: round_half_even_def Let_def)

lemma fl_15_16_plus_1000: "fl (16015/16) = Fin (16015/16)"
  by (rule fl_normal[where e = "9"]) (simp_all add: round_half_even_def Let_def)

lemma rhe_937_5: "round_half_even (1875/2) = 938"
  by (simp add: round_half_even_def Let_def)

lemma fl_double_1: "fl 1 = Fin 1"
  by (rule fl_normal[where e = "0"]) (simp_all add: round_half_even_def Let_def)

lemma quantum_normal:
  assumes "2 powi (- 1022) \<le> x"
  shows "quantum x \<le> x * 2 powi (- 52)"
proof -
  have x: "0 < x" using assms by (meson less_le_trans zero_less_power_int zero_less_numeral)
  have "(2::rat) powi (- 1022) < 2 powi (binexp x + 1)"
    using assms binexp_bounds(2)[OF x] by (rule le_less_trans)
  then have e: "- 1022 \<le> binexp x" by (simp only: two_powi_less_iff)
  have "quantum x = 2 powi (binexp x + (- 52))" unfolding quantum_def using x e by simp
  also have "\<dots> = 2 powi binexp x * 2 powi (- 52)"
    by (simp only: power_int_add[of "2::rat", simplified])
  also have "\<dots> \<le> x * 2 powi (- 52)"
    using binexp_bounds(1)[OF x] by (intro mult_right_mono) auto
  finally show ?thesis .
qed

lemma quantum_subnormal:
  assumes "0 < x" "x < 2 powi (- 1022)"
  shows "quantum x = 2 powi (- 1074)"
proof -
  have "(2::rat) powi binexp x < 2 powi (- 1022)"
    using binexp_bounds(1)[OF assms(1)] assms(2) by (rule le_less_trans)
  then have "binexp x < - 1022" by (simp only: two_powi_less_iff)
  then show ?thesis unfolding quantum_def using assms(1) by simp
qed

lemma nearest_upper_normal:
  assumes "2 powi (- 1022) \<le> x"
  shows "nearest x \<le> x * (1 + 2 powi (- 53))"
proof -
  have "nearest x - x \<le> quantum x / 2" using nearest_error[of x] by linarith
  also have "\<dots> \<le> x * 2 powi (- 52) / 2" using quantum_normal[OF assms] by simp
  also have "\<dots> = x * 2 powi (- 53)" by simp
  finally show ?thesis by (simp add: algebra_simps)
qed

lemma nearest_lower_normal:
  assumes "2 powi (- 1022) \<le> x"
  shows "x * (1 - 2 powi (- 53)) \<le> nearest x"
proof -
  have "x - nearest x \<le> quantum x / 2" using nearest_error[of x] by linarith
  also have "\<dots> \<le> x * 2 powi (- 52) / 2" using quantum_normal[OF assms] by simp
  also have "\<dots> = x * 2 powi (- 53)" by simp
  finally show ?thesis by (simp add: algebra_simps)
qed

lemma half_subnormal_quantum: "(2::rat) powi (- 1074) / 2 = 2 powi (- 1075)"
proof -
  have "(2::rat) powi (- 1075 + 1) = 2 powi (- 1075) * 2"
    by (simp only: power_int_add[of "2::rat", simplified]) simp
  then show ?thesis by simp
qed

lemma nearest_upper_general:
  assumes "0 < x"
  shows "nearest x \<le> x * (1 + 2 powi (- 53)) + 2 powi (- 1075)"
proof (cases "2 powi (- 1022) \<le> x")
  case True
  have "(0::rat) \<le> 2 powi (- 1075)" by simp
  with nearest_upper_normal[OF True] show ?thesis by linarith
next
  case False
  then have q: "quantum x = 2 powi (- 1074)" using assms by (intro quantum_subnormal) auto
  have "nearest x - x \<le> quantum x / 2" using nearest_error[of x] by linarith
  then have "nearest x \<le> x + 2 powi (- 1075)" unfolding q half_subnormal_quantum by linarith
  moreover have "0 \<le> x * 2 powi (- 53)" using assms by simp
  ultimately show ?thesis by (simp add: algebra_simps del: power_int_numeral_neg_numeral)
qed

lemma nearest_lower_subnormal:
  assumes "0 < x" "x < 2 powi (- 1022)"
  shows "x - 2 powi (- 1075) \<le> nearest x"
proof -
  have q: "quantum x = 2 powi (- 1074)" using assms by (rule quantum_subnormal)
  have "x - nearest x \<le> quantum x / 2" using nearest_error[of x] by linarith
  then show ?thesis unfolding q half_subnormal_quantum by linarith
qed

lemma nearest_grid: "\<exists>k::int. nearest x = of_int k * 2 powi (- 1074)"
proof (cases "x = 0")
  case True
  then show ?thesis by (intro exI[of _ 0]) simp
next
  case False
  define e where "e = max (binexp \<bar>x\<bar>) (- 1022)"
  have e: "0 \<le> e + 1022" unfolding e_def by simp
  have "quantum x = 2 powi ((e + 1022) + (- 1074))" unfolding quantum_def e_def by simp
  also have "\<dots> = 2 powi (e + 1022) * 2 powi (- 1074)"
    by (simp only: power_int_add[of "2::rat", simplified])
  also have "(2::rat) powi (e + 1022) = of_int (2 ^ nat (e + 1022))"
    using e by (simp add: power_int_def)
  finally have q: "quantum x = of_int (2 ^ nat (e + 1022)) * 2 powi (- 1074)" .
  have "nearest x = of_int (round_half_even (x / quantum x) * 2 ^ nat (e + 1022)) * 2 powi (- 1074)"
    unfolding nearest_def using False by (subst (2) q) (simp del: power_int_numeral_neg_numeral)
  then show ?thesis by blast
qed

lemma grid_gap:
  assumes "a < b" "a = of_int ka * (g::rat)" "b = of_int kb * g" "0 < g"
  shows "a + g \<le> b"
proof -
  have "(of_int ka :: rat) < of_int kb" using assms by (simp add: mult_less_cancel_right_pos)
  then have "ka + 1 \<le> kb" by simp
  then have "(of_int (ka + 1) :: rat) \<le> of_int kb" by (simp only: of_int_le_iff)
  then have "of_int (ka + 1) * g \<le> of_int kb * g" using assms(4) by (intro mult_right_mono) auto
  then show ?thesis unfolding assms(2,3) by (simp add: algebra_simps)
qed

lemma nearest_1 [simp]: "nearest 1 = 1"
  using fl_double_1 unfolding fl_def Let_def by (auto split: if_splits simp del: power_int_numeral)

lemma nearest_le_scaled:
  assumes "x \<le> 9996/10000 * y" "1 \<le> y"
  shows "nearest x \<le> y"
proof -
  define z where "z = 9996/10000 * y"
  have z1: "9996/10000 \<le> z" unfolding z_def using assms(2) by simp
  have "(2::rat) powi (- 1022) \<le> 2 powi (- 1)" by (simp only: two_powi_le_iff)
  also have "\<dots> \<le> z" using z1 by simp
  finally have zn: "2 powi (- 1022) \<le> z" .
  have "nearest x \<le> nearest z" using assms(1) unfolding z_def by (rule nearest_mono)
  also have "\<dots> \<le> z * (1 + 2 powi (- 53))" using zn by (rule nearest_upper_normal)
  also have "\<dots> \<le> y" unfolding z_def using assms(2) by simp
  finally show ?thesis .
qed

lemma nearest_of_int_bounds:
  assumes "1 \<le> (h::int)"
  shows "1 \<le> nearest (of_int h)" "nearest (of_int h) \<le> of_int h * (1 + 2 powi (- 53))"
proof -
  have h1: "(1::rat) \<le> of_int h" using assms by simp
  then have "nearest 1 \<le> nearest (of_int h)" by (rule nearest_mono)
  then show "1 \<le> nearest (of_int h)" by simp
  have "(2::rat) powi (- 1022) \<le> 2 powi 0" by (simp only: two_powi_le_iff)
  then have "(2::rat) powi (- 1022) \<le> of_int h" using h1 by simp
  then show "nearest (of_int h) \<le> of_int h * (1 + 2 powi (- 53))" by (rule nearest_upper_normal)
qed

lemma finite_times_tiny:
  fixes x :: rat
  assumes "0 \<le> x" "x < 2 powi 1024"
  shows "x * 2 powi (- 1075) \<le> 2 powi (- 51)"
proof -
  have "x * 2 powi (- 1075) \<le> 2 powi 1024 * 2 powi (- 1075)"
    using assms by (intro mult_right_mono less_imp_le) simp_all
  also have "\<dots> = 2 powi (1024 + (- 1075))"
    by (simp only: power_int_add[of "2::rat", simplified])
  finally show ?thesis by simp
qed

lemma fl_FinD:
  assumes "fl x = Fin q"
  shows "q = nearest x" "nearest x < 2 powi 1024"
  using assms unfolding fl_def Let_def
  by (auto split: if_splits simp del: power_int_numeral)

lemma rhe_le_int:
  assumes "x \<le> of_int n"
  shows "round_half_even x \<le> n"
  using rhe_mono[OF assms] by simp

lemma rhe_nonneg:
  assumes "0 \<le> x"
  shows "0 \<le> round_half_even x"
  using rhe_mono[OF assms] by simp

lemma fabs_fl: "fabs (fl x) = fl \<bar>x\<bar>"
proof (cases "0 \<le> x")
  case True
  then have "0 \<le> nearest x" by (rule nearest_nonneg)
  then show ?thesis using True unfolding fl_def Let_def
    by (auto simp del: power_int_numeral)
next
  case False
  then have x: "\<bar>x\<bar> = - x" by simp
  have p: "- (2 powi 1024) < (2::rat) powi 1024" by simp
  have "nearest x \<le> nearest 0" using False by (intro nearest_mono) simp
  then have n: "nearest x \<le> 0" by simp
  show ?thesis unfolding x fl_def Let_def nearest_minus using n p
    by (auto simp del: power_int_numeral)
qed

lemma fl_5_2: "fl (5/2) = Fin (5/2)"
  by (rule fl_normal[where e = "1"]) (simp_all add: round_half_even_def Let_def)

lemma fl_3_2: "fl (3/2) = Fin (3/2)"
  by (rule fl_normal[where e = "0"]) (simp_all add: round_half_even_def Let_def)

lemma fl_4: "fl 4 = Fin 4"
  by (rule fl_normal[where e = "2"]) (simp_all add: round_half_even_def Let_def)

section \<open>Properties of the timecode validator\<close>

text \<open>
  \<^bold>\<open>C5.\<close> The minimum-length condition is checked after clamping: whenever
  \<open>duration > 0\<close> and the clamped window \<open>min(end, duration) - max(0, start)\<close>, computed
  as the function computes it (a float subtraction), is below \<open>min_length\<close>, the call
  fails with SelectionTooShort, whatever the later checks would have said. In particular
  \<open>sanitize_timecodes(10.0, 10.1, duration=10.0)\<close> fails with SelectionTooShort: this is
  the witness, \<open>5685794529555251 / 562949953421312\<close> being the float written \<open>10.1\<close>.
\<close>

theorem sanitize_too_short_after_clamping:
  assumes "flt (Fin 0) duration"
    and "flt (fsub (py_min end duration) (py_max (Fin 0) start)) min_length"
  shows "sanitize_timecodes start end duration min_length = Inl SelectionTooShort"
proof -
  have "\<not> fle duration (Fin 0)" using assms(1) by (rule flt_imp_not_fle)
  then show ?thesis using assms(2) unfolding sanitize_timecodes_def Let_def by simp
qed

theorem sanitize_too_short_after_clamping_witness:
  "flt (Fin 0) (Fin 10)
   \<and> flt (fsub (py_min (Fin (5685794529555251 / 562949953421312)) (Fin 10))
                (py_max (Fin 0) (Fin 10))) default_min_length
   \<and> sanitize_timecodes (Fin 10) (Fin (5685794529555251 / 562949953421312)) (Fin 10)
        default_min_length = Inl SelectionTooShort"
proof -
  have d: "flt (Fin 0) (Fin 10)" by simp
  have s: "flt (fsub (py_min (Fin (5685794529555251 / 562949953421312)) (Fin 10))
                (py_max (Fin 0) (Fin 10))) default_min_length"
    by (simp add: py_min_def py_max_def fgt_def default_min_length_def)
  from d s sanitize_too_short_after_clamping[OF d s] show ?thesis by blast
qed




text \<open>
  \<^bold>\<open>C3.\<close> The claim is that for every \<open>duration > 0\<close> the call
  \<open>sanitize_timecodes(-5, duration + 1000, duration)\<close> returns \<open>(0, duration)\<close>. A
  duration below the default minimum length is rejected (\<open>duration = 0.25\<close> fails with
  SelectionTooShort), and a duration with more than three decimals comes back rounded
  (\<open>duration = 0.9375\<close> gives \<open>(0.0, 0.938)\<close>).
\<close>

theorem sanitize_full_range_counterexample:
  "flt (Fin 0) (Fin (1/4)) \<and> is_float (Fin (1/4))
   \<and> sanitize_timecodes (Fin (- 5)) (fadd (Fin (1/4)) (Fin 1000)) (Fin (1/4)) default_min_length
       = Inl SelectionTooShort
   \<and> is_float (Fin (15/16))
   \<and> sanitize_timecodes (Fin (- 5)) (fadd (Fin (15/16)) (Fin 1000)) (Fin (15/16)) default_min_length
       = Inr (Fin 0, Fin (4224376450473525 / 4503599627370496))
   \<and> Fin (4224376450473525 / 4503599627370496) \<noteq> Fin (15/16)"
  by (simp add: sanitize_timecodes_def Let_def py_max_def py_min_def fgt_def fge_def
      default_min_length_def is_double_def fl_double_quarter fl_4001_4 fl_15_16_plus_1000
      fl_double_15_16 rhe_937_5 fl_938_1000)

text \<open>
  \<^bold>\<open>C3, as amended.\<close> For every float \<open>duration \<ge> 0.5\<close> (the default
  \<open>min_length\<close>; \<open>+inf\<close> included), \<open>sanitize_timecodes(-5, duration + 1000, duration)\<close>
  succeeds and returns \<open>(0, round(duration, 3))\<close>. The witness is the duration
  \<open>100\<close>, where the result is \<open>(0, 100)\<close>.
\<close>

theorem sanitize_full_range:
  assumes f: "is_float duration" and m: "fle default_min_length duration"
  shows "sanitize_timecodes (Fin (- 5)) (fadd duration (Fin 1000)) duration default_min_length
       = Inr (Fin 0, py_round duration 3)"
proof (cases duration)
  case (Fin d)
  have fd: "fl d = Fin d" using f unfolding Fin by (simp add: is_double_def)
  have d: "1/2 \<le> d" using m unfolding Fin default_min_length_def by simp
  have "fle (fl d) (fl (d + 1000))" by (rule fl_mono) simp
  then have le: "fle (Fin d) (fl (d + 1000))" unfolding fd .
  have pm: "py_min (fl (d + 1000)) (Fin d) = Fin d"
    using fle_antisym_not_flt[OF le] unfolding py_min_def by auto
  have px: "py_max (Fin 0) (Fin (- 5)) = Fin 0" by (simp add: py_max_def fgt_def)
  show ?thesis
    unfolding Fin sanitize_timecodes_def Let_def fadd.simps pm px default_min_length_def
    using d fd by (simp add: fge_def)
next
  case PInf
  then show ?thesis
    by (simp add: sanitize_timecodes_def Let_def py_min_def py_max_def fgt_def fge_def
        default_min_length_def)
next
  case NInf then show ?thesis using m by (simp add: default_min_length_def)
next
  case NaN then show ?thesis using m by (simp add: default_min_length_def)
qed

theorem sanitize_full_range_witness:
  "is_float (Fin 100) \<and> fle default_min_length (Fin 100)
   \<and> sanitize_timecodes (Fin (- 5)) (fadd (Fin 100) (Fin 1000)) (Fin 100) default_min_length
       = Inr (Fin 0, Fin 100)"
proof -
  have h1: "is_float (Fin 100)" by (simp add: is_double_def fl_double_100)
  have h2: "fle default_min_length (Fin 100)" by (simp add: default_min_length_def)
  have r: "py_round (Fin 100) 3 = Fin 100" by (simp add: fl_double_100)
  from sanitize_full_range[OF h1 h2] h1 h2 show ?thesis unfolding r by blast
qed

text \<open>
  \<^bold>\<open>C10.\<close> The claim is that for \<open>min_length > 0\<close> the last two checks can never
  fire. They can, on arguments that are not finite: a NaN \<open>end\<close> passes the length check
  (every comparison with NaN is false), so \<open>sanitize_timecodes(100, nan, 10)\<close> fails with
  StartOutOfBounds, and \<open>sanitize_timecodes(inf, inf, nan)\<close> fails with EndNotAfterStart.
\<close>

theorem sanitize_later_guards_reachable_counterexample:
  "flt (Fin 0) default_min_length
   \<and> sanitize_timecodes (Fin 100) NaN (Fin 10) default_min_length = Inl StartOutOfBounds
   \<and> sanitize_timecodes PInf PInf NaN default_min_length = Inl EndNotAfterStart
   \<and> StartOutOfBounds \<noteq> InvalidDuration \<and> StartOutOfBounds \<noteq> SelectionTooShort
   \<and> EndNotAfterStart \<noteq> InvalidDuration \<and> EndNotAfterStart \<noteq> SelectionTooShort"
  by (simp add: sanitize_timecodes_def Let_def py_max_def py_min_def fgt_def fge_def
      default_min_length_def StartOutOfBounds_def InvalidDuration_def SelectionTooShort_def
      EndNotAfterStart_def)

lemma sanitize_guards_unreachable:
  assumes m: "flt (Fin 0) min_length" and e: "\<not> is_nan end" and s: "start \<noteq> PInf"
    and d: "\<not> fle duration (Fin 0)"
    and pass: "\<not> flt (fsub (py_min end duration) (py_max (Fin 0) start)) min_length"
  shows "\<not> fge (py_max (Fin 0) start) duration \<and> \<not> fle (py_min end duration) (py_max (Fin 0) start)"
proof -
  obtain s0 where s0: "py_max (Fin 0) start = Fin s0" "0 \<le> s0"
    using py_max_0_Fin[OF s] by blast
  have en: "\<not> is_nan (py_min end duration)" using e by (rule py_min_not_nan)
  have lt: "flt (Fin s0) (py_min end duration)"
    using m pass en unfolding s0 by (rule fsub_Fin_pos)
  then have 2: "\<not> fle (py_min end duration) (Fin s0)" by (rule flt_imp_not_fle)
  have 1: "\<not> fle duration (Fin s0)"
  proof (cases "is_nan duration")
    case True then show ?thesis by (cases duration) auto
  next
    case False
    have "fle (py_min end duration) duration" using e False by (rule py_min_le)
    with lt show ?thesis by (cases "py_min end duration"; cases duration) auto
  qed
  from 1 2 show ?thesis unfolding s0 fge_def by simp
qed

text \<open>
  \<^bold>\<open>C10, as amended.\<close> For every \<open>min_length > 0\<close>, every \<open>end\<close> that is not NaN
  and every \<open>start\<close> other than \<open>+inf\<close> (so for all finite arguments): once the duration
  check and the length check have passed, neither of the two later checks fires, and
  every failure of \<open>sanitize_timecodes\<close> is InvalidDuration or SelectionTooShort.
\<close>

theorem sanitize_later_guards_unreachable:
  assumes "flt (Fin 0) min_length" and "\<not> is_nan end" and "start \<noteq> PInf"
  shows "(\<not> fle duration (Fin 0)
            \<and> \<not> flt (fsub (py_min end duration) (py_max (Fin 0) start)) min_length
          \<longrightarrow> \<not> fge (py_max (Fin 0) start) duration
            \<and> \<not> fle (py_min end duration) (py_max (Fin 0) start))
       \<and> (\<forall>err. sanitize_timecodes start end duration min_length = Inl err
            \<longrightarrow> err = InvalidDuration \<or> err = SelectionTooShort)"
proof (intro conjI impI allI)
  assume "\<not> fle duration (Fin 0)
      \<and> \<not> flt (fsub (py_min end duration) (py_max (Fin 0) start)) min_length"
  then have g: "\<not> fge (py_max (Fin 0) start) duration
      \<and> \<not> fle (py_min end duration) (py_max (Fin 0) start)"
    using sanitize_guards_unreachable[OF assms] by blast
  from g show "\<not> fge (py_max (Fin 0) start) duration" ..
  from g show "\<not> fle (py_min end duration) (py_max (Fin 0) start)" ..
next
  fix err
  assume f: "sanitize_timecodes start end duration min_length = Inl err"
  show "err = InvalidDuration \<or> err = SelectionTooShort"
  proof (cases "fle duration (Fin 0)")
    case True
    then show ?thesis using f unfolding sanitize_timecodes_def by simp
  next
    case d: False
    show ?thesis
    proof (cases "flt (fsub (py_min end duration) (py_max (Fin 0) start)) min_length")
      case True
      then show ?thesis using f d unfolding sanitize_timecodes_def Let_def by simp
    next
      case False
      from sanitize_guards_unreachable[OF assms d False]
      show ?thesis using f d False unfolding sanitize_timecodes_def Let_def by simp
    qed
  qed
qed

theorem sanitize_later_guards_unreachable_witness:
  "flt (Fin 0) default_min_length \<and> \<not> is_nan (Fin 2) \<and> Fin 0 \<noteq> PInf
   \<and> \<not> fle (Fin 1) (Fin 0)
   \<and> \<not> flt (fsub (py_min (Fin 2) (Fin 1)) (py_max (Fin 0) (Fin 0))) default_min_length
   \<and> \<not> fge (py_max (Fin 0) (Fin 0)) (Fin 1)
   \<and> \<not> fle (py_min (Fin 2) (Fin 1)) (py_max (Fin 0) (Fin 0))"
proof -
  have h1: "flt (Fin 0) default_min_length" by (simp add: default_min_length_def)
  have h2: "\<not> is_nan (Fin 2)" by simp
  have h3: "Fin 0 \<noteq> PInf" by simp
  have h4: "\<not> fle (Fin 1) (Fin 0)" by simp
  have h5: "\<not> flt (fsub (py_min (Fin 2) (Fin 1)) (py_max (Fin 0) (Fin 0))) default_min_length"
    by (simp add: py_min_def py_max_def fgt_def default_min_length_def fl_double_1)
  from sanitize_later_guards_unreachable[OF h1 h2 h3, of "Fin 1"] h1 h2 h3 h4 h5
  show ?thesis by blast
qed

section \<open>Properties of the crop geometry\<close>

lemma rel_tol_value: "rel_tol_1e_3 = Fin (1152921504606847 / 1152921504606846976)"
  unfolding rel_tol_1e_3_def
  by (rule fl_normal[where e = "-10"]) (simp_all add: round_half_even_def Let_def)

lemma fl_16_9: "fl (16/9) = Fin (2001599834386887 / 1125899906842624)"
  by (rule fl_normal[where e = "0"]) (simp_all add: round_half_even_def Let_def)

lemma fl_9_16: "fl (9/16) = Fin (9/16)"
  by (rule fl_normal[where e = "-1"]) (simp_all add: round_half_even_def Let_def)

lemma fl_1080: "fl 1080 = Fin 1080"
  by (rule fl_normal[where e = "10"]) (simp_all add: round_half_even_def Let_def)

lemma fl_1215_2: "fl (1215/2) = Fin (1215/2)"
  by (rule fl_normal[where e = "9"]) (simp_all add: round_half_even_def Let_def)

lemma rhe_1215_2: "round_half_even (1215/2) = 608"
  by (simp add: round_half_even_def Let_def)

lemma fl_half: "fl (1/2) = Fin (1/2)"
  by (rule fl_normal[where e = "-1"]) (simp_all add: round_half_even_def Let_def)

lemma fl_2: "fl 2 = Fin 2"
  by (rule fl_normal[where e = "1"]) (simp_all add: round_half_even_def Let_def)

lemma rhe_half: "round_half_even (1/2) = 0"
proof -
  have "\<lfloor>(1::rat) / 2\<rfloor> = 0" by (simp add: floor_eq_iff)
  then show ?thesis by (simp add: round_half_even_def Let_def)
qed

lemma isclose_16_9:
  "\<not> isclose (Fin (2001599834386887 / 1125899906842624)) (Fin (9/16)) rel_tol_1e_3"
proof -
  have d: "fl (9/16 - 2001599834386887 / 1125899906842624)
      = Fin (- (1368281136787911 / 1125899906842624))"
    by (rule fl_normal[where e = "0"]) (simp_all add: round_half_even_def Let_def)
  have m1: "fl (1152921504606847 / 1152921504606846976 * (9/16))
      = Fin (1297036692682703 / 2305843009213693952)"
    by (rule fl_normal[where e = "-11"]) (simp_all add: round_half_even_def Let_def)
  have m2: "fl (1152921504606847 / 1152921504606846976 * (2001599834386887 / 1125899906842624))
      = Fin (8198552921648689 / 4611686018427387904)"
    by (rule fl_normal[where e = "-10"]) (simp_all add: round_half_even_def Let_def)
  show ?thesis
    unfolding isclose_def rel_tol_value Let_def fsub.simps fmul.simps d m1 m2
    by (simp add: feq_def)
qed

lemma isclose_refl: "\<not> is_nan a \<Longrightarrow> isclose a a r"
  by (simp add: isclose_def feq_def)

lemma crop_1920_1080:
  "compute_crop_box 1920 1080 1080 1920 = Inr \<lparr>x1 = 656, y1 = 0, x2 = 1264, y2 = 1080\<rparr>"
proof -
  have a: "int_truediv 1920 1080 = Inr (Fin (2001599834386887 / 1125899906842624))"
    unfolding int_truediv_def using fl_16_9 by simp
  have b: "int_truediv 1080 1920 = Inr (Fin (9/16))"
    unfolding int_truediv_def using fl_9_16 by simp
  have p: "int_mul_float 1080 (Fin (9/16)) = Inr (Fin (1215/2))"
    unfolding int_mul_float_def float_of_int_def and_then_def using fl_1080 fl_1215_2 by simp
  show ?thesis
    unfolding compute_crop_box_def a b
    by (simp add: and_then_def isclose_16_9 fgt_def p rhe_1215_2)
qed

text \<open>
  \<^bold>\<open>C6.\<close> \<open>compute_crop_box(1920, 1080, 1080, 1920)\<close> returns the centred horizontal
  crop \<open>x1 = 656\<close>, \<open>y1 = 0\<close>, of width 608 and height 1080: the target ratio is
  \<open>0.5625\<close>, \<open>1080 * 0.5625 = 607.5\<close> rounds to the even 608, and
  \<open>(1920 - 608) // 2 = 656\<close>.
\<close>

theorem crop_landscape_to_vertical:
  "compute_crop_box 1920 1080 1080 1920 = Inr \<lparr>x1 = 656, y1 = 0, x2 = 1264, y2 = 1080\<rparr>
   \<and> width \<lparr>x1 = 656, y1 = 0, x2 = 1264, y2 = 1080\<rparr> = 608
   \<and> height \<lparr>x1 = 656, y1 = 0, x2 = 1264, y2 = 1080\<rparr> = 1080"
  using crop_1920_1080 by (simp add: width_def height_def)

text \<open>
  \<^bold>\<open>C7.\<close> For positive dimensions whose two ratios, as the function computes them,
  are close in the sense of \<open>math.isclose(src_ratio, dest_ratio, rel_tol=1e-03)\<close>, the
  result is the full source frame \<open>(0, 0, width, height)\<close>. The witness is
  \<open>compute_crop_box(1080, 1920, 1080, 1920)\<close>, whose ratios are equal.
\<close>

theorem crop_full_frame_when_close:
  assumes "0 < w" and "0 < h" and "0 < target_width" and "0 < target_height"
    and "int_truediv w h = Inr src_ratio"
    and "int_truediv target_width target_height = Inr dest_ratio"
    and "isclose src_ratio dest_ratio rel_tol_1e_3"
  shows "compute_crop_box w h target_width target_height = Inr \<lparr>x1 = 0, y1 = 0, x2 = w, y2 = h\<rparr>"
  using assms unfolding compute_crop_box_def and_then_def by simp

theorem crop_full_frame_when_close_witness:
  "(0::int) < 1080 \<and> (0::int) < 1920
   \<and> int_truediv 1080 1920 = Inr (Fin (9/16))
   \<and> isclose (Fin (9/16)) (Fin (9/16)) rel_tol_1e_3
   \<and> compute_crop_box 1080 1920 1080 1920 = Inr \<lparr>x1 = 0, y1 = 0, x2 = 1080, y2 = 1920\<rparr>"
proof -
  have p1: "(0::int) < 1080" and p2: "(0::int) < 1920" by simp_all
  have b: "int_truediv 1080 1920 = Inr (Fin (9/16))"
    unfolding int_truediv_def using fl_9_16 by simp
  have c: "isclose (Fin (9/16)) (Fin (9/16)) rel_tol_1e_3" by (rule isclose_refl) simp
  from crop_full_frame_when_close[OF p1 p2 p1 p2 b b c] p1 p2 b c show ?thesis by blast
qed

text \<open>
  \<^bold>\<open>C1.\<close> The claim is that every returned box has \<open>0 \<le> x1 < x2 \<le> width\<close> and
  \<open>0 \<le> y1 < y2 \<le> height\<close>. The rounded crop dimension can be 0:
  \<open>compute_crop_box(2, 1, 1, 2)\<close> rounds \<open>1 * 0.5\<close> to the even 0 and returns the empty
  box \<open>(1, 0, 1, 1)\<close>.
\<close>

theorem crop_degenerate_counterexample:
  "compute_crop_box 2 1 1 2 = Inr \<lparr>x1 = 1, y1 = 0, x2 = 1, y2 = 1\<rparr>
   \<and> \<not> (x1 \<lparr>x1 = 1, y1 = 0, x2 = 1, y2 = 1\<rparr> < x2 \<lparr>x1 = 1, y1 = 0, x2 = 1, y2 = (1::int)\<rparr>)"
proof -
  have a: "int_truediv 2 1 = Inr (Fin 2)"
    unfolding int_truediv_def using fl_2 by simp
  have b: "int_truediv 1 2 = Inr (Fin (1/2))"
    unfolding int_truediv_def using fl_half by simp
  have d: "fl (1/2 - 2) = Fin (- (3/2))"
    by (rule fl_normal[where e = "0"]) (simp_all add: round_half_even_def Let_def)
  have m1: "fl (1152921504606847 / 1152921504606846976 * (1/2))
      = Fin (1152921504606847 / 2305843009213693952)"
    by (rule fl_normal[where e = "-11"]) (simp_all add: round_half_even_def Let_def)
  have m2: "fl (1152921504606847 / 1152921504606846976 * 2)
      = Fin (1152921504606847 / 576460752303423488)"
    by (rule fl_normal[where e = "-9"]) (simp_all add: round_half_even_def Let_def)
  have c: "\<not> isclose (Fin 2) (Fin (1/2)) rel_tol_1e_3"
    unfolding isclose_def rel_tol_value Let_def fsub.simps fmul.simps d m1 m2
    by (simp add: feq_def)
  have p: "int_mul_float 1 (Fin (1/2)) = Inr (Fin (1/2))"
    unfolding int_mul_float_def float_of_int_def and_then_def using fl_double_1 fl_half by simp
  have "compute_crop_box 2 1 1 2 = Inr \<lparr>x1 = 1, y1 = 0, x2 = 1, y2 = 1\<rparr>"
    unfolding compute_crop_box_def a b
    by (simp add: and_then_def c fgt_def p rhe_half)
  then show ?thesis by simp
qed

lemma int_truediv_InrD:
  assumes "int_truediv a b = Inr r"
  shows "r = Fin (nearest (of_int a / of_int b))"
proof (cases "fl (of_int a / of_int b)")
  case (Fin q)
  then show ?thesis using assms fl_FinD(1)[OF Fin] unfolding int_truediv_def
    by (auto split: if_splits)
qed (use assms in \<open>auto simp: int_truediv_def split: if_splits\<close>)

lemma float_of_int_InrD:
  assumes "float_of_int n = Inr r"
  shows "r = Fin (nearest (of_int n))" "nearest (of_int n :: rat) < 2 powi 1024"
proof -
  obtain q where q: "fl (of_int n) = Fin q" and r: "r = Fin q"
    using assms unfolding float_of_int_def by (cases "fl (of_int n)") auto
  show "r = Fin (nearest (of_int n))" using fl_FinD(1)[OF q] r by simp
  show "nearest (of_int n :: rat) < 2 powi 1024" using fl_FinD(2)[OF q] .
qed

lemma py_round_int_flD:
  assumes "py_round_int (fl x) = Inr n"
  shows "n = round_half_even (nearest x)"
proof (cases "fl x")
  case (Fin q)
  then show ?thesis using assms fl_FinD(1)[OF Fin] by simp
qed (use assms in auto)

lemma not_isclose_far:
  assumes nc: "\<not> isclose (Fin a) (Fin b) rel_tol_1e_3" and a: "0 \<le> a" and b: "0 \<le> b"
  shows "1152921504606847 / 1152921504606846976 * a < \<bar>b - a\<bar>"
    and "1152921504606847 / 1152921504606846976 * b < \<bar>b - a\<bar>"
proof -
  define r :: rat where "r = 1152921504606847 / 1152921504606846976"
  have r0: "0 \<le> r" unfolding r_def by simp
  from nc have 1: "\<not> fle (fabs (fl (b - a))) (fabs (fl (r * b)))"
    and 2: "\<not> fle (fabs (fl (b - a))) (fabs (fl (r * a)))"
    unfolding isclose_def rel_tol_value Let_def r_def by (auto split: if_splits)
  have "\<not> \<bar>b - a\<bar> \<le> \<bar>r * a\<bar>"
    using 2 fl_mono[of "\<bar>b - a\<bar>" "\<bar>r * a\<bar>"] unfolding fabs_fl by blast
  then show "1152921504606847 / 1152921504606846976 * a < \<bar>b - a\<bar>"
    using a r0 unfolding r_def[symmetric] by (simp add: abs_mult)
  have "\<not> \<bar>b - a\<bar> \<le> \<bar>r * b\<bar>"
    using 1 fl_mono[of "\<bar>b - a\<bar>" "\<bar>r * b\<bar>"] unfolding fabs_fl by blast
  then show "1152921504606847 / 1152921504606846976 * b < \<bar>b - a\<bar>"
    using b r0 unfolding r_def[symmetric] by (simp add: abs_mult)
qed

lemma centred_inside:
  fixes n w :: int
  assumes "0 \<le> n" "n \<le> w"
  shows "0 \<le> (w - n) div 2" "(w - n) div 2 \<le> (w - n) div 2 + n" "(w - n) div 2 + n \<le> w"
  using assms by auto

lemma crop_width_bound:
  fixes w h :: int and bv :: rat
  assumes w: "1 \<le> w" and h: "1 \<le> h" and b0: "0 \<le> bv"
    and far: "bv < nearest (of_int w / of_int h) * (1 - 1152921504606847 / 1152921504606846976)"
    and fin: "nearest (of_int h) < 2 powi 1024"
  shows "nearest (nearest (of_int h) * bv) \<le> of_int w"
proof -
  define t :: rat where "t = of_int w / of_int h"
  define hv where "hv = nearest (of_int h :: rat)"
  define av where "av = nearest t"
  define c :: rat where "c = 2 powi (- 1075)"
  define W :: rat where "W = of_int w"
  define H :: rat where "H = of_int h"
  have W1: "1 \<le> W" and H1: "1 \<le> H" unfolding W_def H_def using w h by simp_all
  have t: "0 < t" unfolding t_def using w h by simp
  have Ht: "H * t = W" unfolding t_def H_def W_def using h by simp
  have hv: "1 \<le> hv" "hv \<le> H * (1 + 1 / 2 ^ 53)"
    using nearest_of_int_bounds[OF h] unfolding hv_def H_def by simp_all
  have av: "av \<le> t * (1 + 1 / 2 ^ 53) + c"
    using nearest_upper_general[OF t] unfolding av_def c_def by simp
  have hc: "hv * c \<le> 1 / 2 ^ 51"
    using finite_times_tiny[of hv] hv(1) fin unfolding hv_def c_def by simp
  have "hv * av \<le> hv * (t * (1 + 1 / 2 ^ 53) + c)"
    using av hv(1) by (intro mult_left_mono) auto
  also have "\<dots> = hv * (t * (1 + 1 / 2 ^ 53)) + hv * c" by (simp add: algebra_simps)
  also have "\<dots> \<le> H * (1 + 1 / 2 ^ 53) * (t * (1 + 1 / 2 ^ 53)) + 1 / 2 ^ 51"
    using hv(2) hc t by (intro add_mono mult_right_mono) auto
  also have "\<dots> = W * ((1 + 1 / 2 ^ 53) * (1 + 1 / 2 ^ 53)) + 1 / 2 ^ 51"
    unfolding Ht[symmetric] by (simp add: algebra_simps)
  finally have ha: "hv * av \<le> W * ((1 + 1 / 2 ^ 53) * (1 + 1 / 2 ^ 53)) + 1 / 2 ^ 51" .
  have "hv * bv \<le> hv * (av * (1 - 1152921504606847 / 1152921504606846976))"
    using far hv(1) unfolding av_def t_def by (intro mult_left_mono) auto
  also have "\<dots> = (hv * av) * (1 - 1152921504606847 / 1152921504606846976)" by simp
  also have "\<dots> \<le> (W * ((1 + 1 / 2 ^ 53) * (1 + 1 / 2 ^ 53)) + 1 / 2 ^ 51)
      * (1 - 1152921504606847 / 1152921504606846976)"
    using ha by (intro mult_right_mono) auto
  also have "\<dots> \<le> 9996 / 10000 * W" using W1 by (simp add: algebra_simps)
  finally have "hv * bv \<le> 9996 / 10000 * W" .
  then have "nearest (hv * bv) \<le> W" using W1 by (rule nearest_le_scaled)
  then show ?thesis unfolding hv_def W_def .
qed

lemma crop_height_bound:
  fixes w h :: int and bv :: rat
  assumes w: "1 \<le> w" and h: "1 \<le> h"
    and far: "nearest (of_int w / of_int h) < bv * (1 - 1152921504606847 / 1152921504606846976)"
    and grid: "\<exists>k::int. bv = of_int k * 2 powi (- 1074)"
  shows "nearest (nearest (of_int w) / bv) \<le> of_int h"
proof -
  define t :: rat where "t = of_int w / of_int h"
  define wv where "wv = nearest (of_int w :: rat)"
  define av where "av = nearest t"
  define W :: rat where "W = of_int w"
  define H :: rat where "H = of_int h"
  define P where "P = H * bv"
  have W1: "1 \<le> W" and H1: "1 \<le> H" unfolding W_def H_def using w h by simp_all
  have t: "0 < t" unfolding t_def using w h by simp
  have Ht: "H * t = W" unfolding t_def H_def W_def using h by simp
  have wv: "1 \<le> wv" "wv \<le> W * (1 + 1 / 2 ^ 53)"
    using nearest_of_int_bounds[OF w] unfolding wv_def W_def by simp_all
  have av0: "0 \<le> av" unfolding av_def using t by (intro nearest_nonneg) simp
  have far': "av < bv * (1 - 1152921504606847 / 1152921504606846976)"
    using far unfolding av_def t_def .
  have b0: "0 < bv"
  proof (rule ccontr)
    assume "\<not> 0 < bv"
    then have "bv * (1 - 1152921504606847 / 1152921504606846976) \<le> 0"
      by (intro mult_nonpos_nonneg) auto
    with far' av0 show False by linarith
  qed
  have key: "wv \<le> 9996 / 10000 * P"
  proof (cases "2 powi (- 1022) \<le> t")
    case True
    have "t * (1 - 1 / 2 ^ 53) \<le> av"
      using nearest_lower_normal[OF True] unfolding av_def by simp
    with far' have "t * (1 - 1 / 2 ^ 53) < bv * (1 - 1152921504606847 / 1152921504606846976)"
      by linarith
    then have "H * (t * (1 - 1 / 2 ^ 53)) < H * (bv * (1 - 1152921504606847 / 1152921504606846976))"
      using H1 by (intro mult_strict_left_mono) auto
    then have "W * (1 - 1 / 2 ^ 53) < P * (1 - 1152921504606847 / 1152921504606846976)"
      unfolding Ht[symmetric] P_def by (simp add: algebra_simps)
    with wv(2) W1 show ?thesis by (simp add: algebra_simps)
  next
    case False
    then have ts: "t < 2 powi (- 1022)" by simp
    define c :: rat where "c = 2 powi (- 1075)"
    have g: "(2::rat) powi (- 1074) = 2 * c" unfolding c_def
      using half_subnormal_quantum by (simp del: power_int_numeral_neg_numeral)
    have c0: "0 < c" unfolding c_def by simp
    have lo: "t - c \<le> av" using nearest_lower_subnormal[OF t ts] unfolding av_def c_def .
    obtain ka :: int where ka: "av = of_int ka * 2 powi (- 1074)"
      using nearest_grid[of t] unfolding av_def by blast
    obtain kb :: int where kb: "bv = of_int kb * 2 powi (- 1074)" using grid by blast
    have "bv * (1 - 1152921504606847 / 1152921504606846976) \<le> bv" using b0 by simp
    with far' have "av < bv" by linarith
    then have "av + 2 powi (- 1074) \<le> bv" using ka kb by (rule grid_gap) simp
    then have 1: "t + c \<le> bv" using lo unfolding g by linarith
    from far' lo have 2: "t - c < bv * (1 - 1152921504606847 / 1152921504606846976)" by linarith
    from 1 2 have "2 * t < bv * (2 - 1152921504606847 / 1152921504606846976)"
      by (simp add: algebra_simps)
    then have "H * (2 * t) < H * (bv * (2 - 1152921504606847 / 1152921504606846976))"
      using H1 by (intro mult_strict_left_mono) auto
    then have "2 * W < P * (2 - 1152921504606847 / 1152921504606846976)"
      unfolding Ht[symmetric] P_def by (simp add: algebra_simps)
    with wv(2) W1 show ?thesis by (simp add: algebra_simps)
  qed
  have "wv / bv \<le> 9996 / 10000 * H"
    using key b0 unfolding P_def by (simp add: field_simps)
  then have "nearest (wv / bv) \<le> H" using H1 by (rule nearest_le_scaled)
  then show ?thesis unfolding wv_def H_def .
qed

lemma crop_box_exact:
  assumes ok: "compute_crop_box w h target_width target_height = Inr box"
  shows "\<exists>src_ratio dest_ratio.
           int_truediv w h = Inr src_ratio
         \<and> int_truediv target_width target_height = Inr dest_ratio
         \<and> 0 < w \<and> 0 < h
         \<and> (if isclose src_ratio dest_ratio rel_tol_1e_3
            then box = \<lparr>x1 = 0, y1 = 0, x2 = w, y2 = h\<rparr>
            else if fgt src_ratio dest_ratio
            then \<exists>p n. int_mul_float h dest_ratio = Inr p \<and> py_round_int p = Inr n
                   \<and> 0 \<le> n \<and> n \<le> w
                   \<and> box = \<lparr>x1 = (w - n) div 2, y1 = 0, x2 = (w - n) div 2 + n, y2 = h\<rparr>
            else \<exists>p n. int_div_float w dest_ratio = Inr p \<and> py_round_int p = Inr n
                   \<and> 0 \<le> n \<and> n \<le> h
                   \<and> box = \<lparr>x1 = 0, y1 = (h - n) div 2, x2 = w, y2 = (h - n) div 2 + n\<rparr>)"
proof -
  from ok have pos: "1 \<le> w" "1 \<le> h" "1 \<le> target_width" "1 \<le> target_height"
    unfolding compute_crop_box_def by (auto split: if_splits)
  define av :: rat where "av = nearest (of_int w / of_int h)"
  define bv :: rat where "bv = nearest (of_int target_width / of_int target_height)"
  have av0: "0 \<le> av" unfolding av_def using pos by (intro nearest_nonneg) simp
  have bv0: "0 \<le> bv" unfolding bv_def using pos by (intro nearest_nonneg) simp
  from ok pos obtain a where a: "int_truediv w h = Inr a"
    unfolding compute_crop_box_def and_then_def by (auto split: if_splits sum.splits)
  from ok pos a obtain b where b: "int_truediv target_width target_height = Inr b"
    unfolding compute_crop_box_def and_then_def by (auto split: if_splits sum.splits)
  have a': "a = Fin av" using int_truediv_InrD[OF a] unfolding av_def .
  have b': "b = Fin bv" using int_truediv_InrD[OF b] unfolding bv_def .
  note unf = compute_crop_box_def and_then_def a b a' b'
  show ?thesis
  proof (cases "isclose (Fin av) (Fin bv) rel_tol_1e_3")
    case True
    then have "box = \<lparr>x1 = 0, y1 = 0, x2 = w, y2 = h\<rparr>"
      using ok pos unfolding compute_crop_box_def and_then_def a b a'[symmetric] b'[symmetric]
      by (simp add: a' b')
    then show ?thesis using True pos a b unfolding a' b'
      by (intro exI[of _ "Fin av"] exI[of _ "Fin bv"]) simp
  next
    case nc: False
    note far = not_isclose_far[OF nc av0 bv0]
    show ?thesis
    proof (cases "fgt (Fin av) (Fin bv)")
      case True
      then have lt: "bv < av" by (simp add: fgt_def)
      from ok pos nc True obtain p n where p: "int_mul_float h (Fin bv) = Inr p"
        and n: "py_round_int p = Inr n"
        and box: "box = \<lparr>x1 = (w - n) div 2, y1 = 0, x2 = (w - n) div 2 + n, y2 = h\<rparr>"
        unfolding compute_crop_box_def and_then_def a b
        by (auto simp: a' b' Let_def split: sum.splits)
      from p obtain f where f: "float_of_int h = Inr f" and pf: "p = fmul f (Fin bv)"
        unfolding int_mul_float_def and_then_def by (auto split: sum.splits)
      note hv = float_of_int_InrD[OF f]
      have p': "p = fl (nearest (of_int h) * bv)" unfolding pf hv(1) by simp
      have n': "n = round_half_even (nearest (nearest (of_int h) * bv))"
        using n unfolding p' by (rule py_round_int_flD)
      have "bv < av * (1 - 1152921504606847 / 1152921504606846976)"
        using far(1) lt by (simp add: algebra_simps)
      then have "nearest (nearest (of_int h) * bv) \<le> of_int w"
        unfolding av_def using pos(1,2) bv0 hv(2) by (intro crop_width_bound) auto
      then have up: "n \<le> w" unfolding n' by (rule rhe_le_int)
      have "0 \<le> nearest (of_int h :: rat)" using pos(2) by (intro nearest_nonneg) simp
      then have "0 \<le> nearest (nearest (of_int h) * bv)" using bv0 by (intro nearest_nonneg) simp
      then have lo: "0 \<le> n" unfolding n' by (rule rhe_nonneg)
      have "\<exists>p n. int_mul_float h (Fin bv) = Inr p \<and> py_round_int p = Inr n
          \<and> 0 \<le> n \<and> n \<le> w
          \<and> box = \<lparr>x1 = (w - n) div 2, y1 = 0, x2 = (w - n) div 2 + n, y2 = h\<rparr>"
        using p n lo up box by blast
      then show ?thesis using nc True pos a b unfolding a' b'
        by (intro exI[of _ "Fin av"] exI[of _ "Fin bv"]) simp
    next
      case False
      then have "\<not> bv < av" by (simp add: fgt_def)
      moreover have "av \<noteq> bv" using nc by (auto simp: isclose_def feq_def)
      ultimately have lt: "av < bv" by simp
      from ok pos nc False obtain p n where p: "int_div_float w (Fin bv) = Inr p"
        and n: "py_round_int p = Inr n"
        and box: "box = \<lparr>x1 = 0, y1 = (h - n) div 2, x2 = w, y2 = (h - n) div 2 + n\<rparr>"
        unfolding compute_crop_box_def and_then_def a b
        by (auto simp: a' b' Let_def split: sum.splits)
      from p obtain f where f: "float_of_int w = Inr f" and pf: "fdiv f (Fin bv) = Inr p"
        unfolding int_div_float_def and_then_def by (auto split: sum.splits)
      note wv = float_of_int_InrD[OF f]
      have bpos: "0 < bv" using lt av0 by simp
      have p': "p = fl (nearest (of_int w) / bv)" using pf bpos unfolding wv(1) by simp
      have n': "n = round_half_even (nearest (nearest (of_int w) / bv))"
        using n unfolding p' by (rule py_round_int_flD)
      have "av < bv * (1 - 1152921504606847 / 1152921504606846976)"
        using far(2) lt by (simp add: algebra_simps)
      moreover have "\<exists>k::int. bv = of_int k * 2 powi (- 1074)"
        unfolding bv_def by (rule nearest_grid)
      ultimately have "nearest (nearest (of_int w) / bv) \<le> of_int h"
        unfolding av_def using pos(1,2) by (intro crop_height_bound) auto
      then have up: "n \<le> h" unfolding n' by (rule rhe_le_int)
      have "0 \<le> nearest (of_int w :: rat)" using pos(1) by (intro nearest_nonneg) simp
      then have "0 \<le> nearest (nearest (of_int w) / bv)" using bpos by (intro nearest_nonneg) simp
      then have lo: "0 \<le> n" unfolding n' by (rule rhe_nonneg)
      have "\<exists>p n. int_div_float w (Fin bv) = Inr p \<and> py_round_int p = Inr n
          \<and> 0 \<le> n \<and> n \<le> h
          \<and> box = \<lparr>x1 = 0, y1 = (h - n) div 2, x2 = w, y2 = (h - n) div 2 + n\<rparr>"
        using p n lo up box by blast
      then show ?thesis using nc False pos a b unfolding a' b'
        by (intro exI[of _ "Fin av"] exI[of _ "Fin bv"]) simp
    qed
  qed
qed


lemma rhe_9_16: "round_half_even (9/16) = 1"
proof -
  have "\<lfloor>(9::rat) / 16\<rfloor> = 0" by (simp add: floor_eq_iff)
  then show ?thesis by (simp add: round_half_even_def Let_def)
qed

lemma default_target_width:
  assumes h: "1 \<le> h" and p: "int_mul_float h (Fin (9/16)) = Inr p"
    and n: "py_round_int p = Inr n"
  shows "1 \<le> n"
proof -
  from p obtain f where f: "float_of_int h = Inr f" and pf: "p = fmul f (Fin (9/16))"
    unfolding int_mul_float_def and_then_def by (auto split: sum.splits)
  note hv = float_of_int_InrD[OF f]
  have p': "p = fl (nearest (of_int h) * (9/16))" unfolding pf hv(1) by simp
  have n': "n = round_half_even (nearest (nearest (of_int h) * (9/16)))"
    using n unfolding p' by (rule py_round_int_flD)
  have "(9::rat) / 16 \<le> nearest (of_int h) * (9/16)"
    using nearest_of_int_bounds(1)[OF h] by simp
  then have "nearest (9/16) \<le> nearest (nearest (of_int h) * (9/16))" by (rule nearest_mono)
  moreover have "nearest (9/16) = 9/16" using fl_FinD(1)[OF fl_9_16] by simp
  ultimately have "(9::rat) / 16 \<le> nearest (nearest (of_int h) * (9/16))" by simp
  then have "round_half_even (9/16) \<le> n" unfolding n' by (rule rhe_mono)
  then show ?thesis by (simp only: rhe_9_16)
qed

lemma default_target_height:
  assumes w: "1 \<le> w" and p: "int_div_float w (Fin (9/16)) = Inr p"
    and n: "py_round_int p = Inr n"
  shows "1 \<le> n"
proof -
  from p obtain f where f: "float_of_int w = Inr f" and pf: "fdiv f (Fin (9/16)) = Inr p"
    unfolding int_div_float_def and_then_def by (auto split: sum.splits)
  note wv = float_of_int_InrD[OF f]
  have p': "p = fl (nearest (of_int w) / (9/16))" using pf unfolding wv(1) by simp
  have n': "n = round_half_even (nearest (nearest (of_int w) / (9/16)))"
    using n unfolding p' by (rule py_round_int_flD)
  have "(1::rat) \<le> nearest (of_int w) / (9/16)"
    using nearest_of_int_bounds(1)[OF w] by simp
  then have "nearest 1 \<le> nearest (nearest (of_int w) / (9/16))" by (rule nearest_mono)
  then have "(1::rat) \<le> nearest (nearest (of_int w) / (9/16))" by simp
  then have "round_half_even 1 \<le> n" unfolding n' by (rule rhe_mono)
  moreover have "round_half_even 1 = 1" using rhe_of_int[of 1] by simp
  ultimately show ?thesis by simp
qed

lemma default_target_ratio: "int_truediv 1080 1920 = Inr (Fin (9/16))"
  unfolding int_truediv_def using fl_9_16 by simp

text \<open>
  \<^bold>\<open>C1, as amended.\<close> Every box that \<open>compute_crop_box\<close> returns lies inside the
  source frame, \<open>0 \<le> x1 \<le> x2 \<le> width\<close> and \<open>0 \<le> y1 \<le> y2 \<le> height\<close>, and it is exactly
  this box: the full frame when the two ratios are close; otherwise the centred crop whose
  width is \<open>new_width = round(height * dest_ratio)\<close> on the full height (source wider than
  target), or whose height is \<open>new_height = round(width / dest_ratio)\<close> on the full width.
  So \<open>x1 < x2\<close> and \<open>y1 < y2\<close> hold in every case but one: the rounded dimension is 0.
  That case does not arise for the target \<open>1080 x 1920\<close>, the default of
  \<open>export_vertical_clip\<close>, where both inequalities are strict for every source. The proof
  of the bounds follows the float arithmetic of the function: the ratios are not close,
  so they differ by more than the tolerance, which outweighs every rounding error of the
  product or quotient that gives the crop dimension.
\<close>

theorem crop_box_inside_frame:
  assumes ok: "compute_crop_box w h target_width target_height = Inr box"
  shows "(0 \<le> x1 box \<and> x1 box \<le> x2 box \<and> x2 box \<le> w
          \<and> 0 \<le> y1 box \<and> y1 box \<le> y2 box \<and> y2 box \<le> h)
       \<and> (x1 box = 0 \<and> x2 box = w \<and> 0 < w \<or> y1 box = 0 \<and> y2 box = h \<and> 0 < h)
       \<and> (\<exists>src_ratio dest_ratio.
             int_truediv w h = Inr src_ratio
           \<and> int_truediv target_width target_height = Inr dest_ratio
           \<and> (if isclose src_ratio dest_ratio rel_tol_1e_3
              then box = \<lparr>x1 = 0, y1 = 0, x2 = w, y2 = h\<rparr>
                 \<and> x1 box < x2 box \<and> y1 box < y2 box
              else if fgt src_ratio dest_ratio
              then \<exists>p new_width.
                     int_mul_float h dest_ratio = Inr p \<and> py_round_int p = Inr new_width
                   \<and> box = \<lparr>x1 = (w - new_width) div 2, y1 = 0,
                            x2 = (w - new_width) div 2 + new_width, y2 = h\<rparr>
                   \<and> y1 box < y2 box \<and> (x1 box < x2 box) = (new_width \<noteq> 0)
              else \<exists>p new_height.
                     int_div_float w dest_ratio = Inr p \<and> py_round_int p = Inr new_height
                   \<and> box = \<lparr>x1 = 0, y1 = (h - new_height) div 2,
                            x2 = w, y2 = (h - new_height) div 2 + new_height\<rparr>
                   \<and> x1 box < x2 box \<and> (y1 box < y2 box) = (new_height \<noteq> 0)))
       \<and> (target_width = 1080 \<and> target_height = 1920 \<longrightarrow> x1 box < x2 box \<and> y1 box < y2 box)"
proof -
  from crop_box_exact[OF ok] obtain src_ratio dest_ratio where
    s: "int_truediv w h = Inr src_ratio"
    and d: "int_truediv target_width target_height = Inr dest_ratio"
    and pos: "0 < w" "0 < h"
    and c: "if isclose src_ratio dest_ratio rel_tol_1e_3
            then box = \<lparr>x1 = 0, y1 = 0, x2 = w, y2 = h\<rparr>
            else if fgt src_ratio dest_ratio
            then \<exists>p n. int_mul_float h dest_ratio = Inr p \<and> py_round_int p = Inr n
                   \<and> 0 \<le> n \<and> n \<le> w
                   \<and> box = \<lparr>x1 = (w - n) div 2, y1 = 0, x2 = (w - n) div 2 + n, y2 = h\<rparr>
            else \<exists>p n. int_div_float w dest_ratio = Inr p \<and> py_round_int p = Inr n
                   \<and> 0 \<le> n \<and> n \<le> h
                   \<and> box = \<lparr>x1 = 0, y1 = (h - n) div 2, x2 = w, y2 = (h - n) div 2 + n\<rparr>"
    by blast
  let ?bounds = "0 \<le> x1 box \<and> x1 box \<le> x2 box \<and> x2 box \<le> w
          \<and> 0 \<le> y1 box \<and> y1 box \<le> y2 box \<and> y2 box \<le> h"
  let ?span = "x1 box = 0 \<and> x2 box = w \<and> 0 < w \<or> y1 box = 0 \<and> y2 box = h \<and> 0 < h"
  let ?strict = "target_width = 1080 \<and> target_height = 1920
      \<longrightarrow> x1 box < x2 box \<and> y1 box < y2 box"
  show ?thesis
  proof (cases "isclose src_ratio dest_ratio rel_tol_1e_3")
    case True
    with c have box: "box = \<lparr>x1 = 0, y1 = 0, x2 = w, y2 = h\<rparr>" by simp
    have 1: ?bounds and 2: ?span and 4: ?strict unfolding box using pos by simp_all
    have "box = \<lparr>x1 = 0, y1 = 0, x2 = w, y2 = h\<rparr> \<and> x1 box < x2 box \<and> y1 box < y2 box"
      using box pos by simp
    with s d True 1 2 4 show ?thesis by auto
  next
    case nc: False
    show ?thesis
    proof (cases "fgt src_ratio dest_ratio")
      case True
      with c nc obtain p n where p: "int_mul_float h dest_ratio = Inr p"
        and n: "py_round_int p = Inr n" and lo: "0 \<le> n" and up: "n \<le> w"
        and box: "box = \<lparr>x1 = (w - n) div 2, y1 = 0, x2 = (w - n) div 2 + n, y2 = h\<rparr>"
        by auto
      have 1: ?bounds and 2: ?span
        unfolding box using centred_inside[OF lo up] pos by simp_all
      have eq: "(x1 box < x2 box) = (n \<noteq> 0)" unfolding box using lo by auto
      have 4: ?strict
      proof
        assume t: "target_width = 1080 \<and> target_height = 1920"
        then have "dest_ratio = Fin (9/16)" using d default_target_ratio by simp
        then have "1 \<le> n" using default_target_width[of h p n] pos p n by simp
        then show "x1 box < x2 box \<and> y1 box < y2 box" unfolding box using pos by simp
      qed
      have "\<exists>p new_width.
                     int_mul_float h dest_ratio = Inr p \<and> py_round_int p = Inr new_width
                   \<and> box = \<lparr>x1 = (w - new_width) div 2, y1 = 0,
                            x2 = (w - new_width) div 2 + new_width, y2 = h\<rparr>
                   \<and> y1 box < y2 box \<and> (x1 box < x2 box) = (new_width \<noteq> 0)"
        using p n box eq pos by (intro exI[of _ p] exI[of _ n]) simp
      with s d nc True 1 2 4 show ?thesis by auto
    next
      case False
      with c nc obtain p n where p: "int_div_float w dest_ratio = Inr p"
        and n: "py_round_int p = Inr n" and lo: "0 \<le> n" and up: "n \<le> h"
        and box: "box = \<lparr>x1 = 0, y1 = (h - n) div 2, x2 = w, y2 = (h - n) div 2 + n\<rparr>"
        by auto
      have 1: ?bounds and 2: ?span
        unfolding box using centred_inside[OF lo up] pos by simp_all
      have eq: "(y1 box < y2 box) = (n \<noteq> 0)" unfolding box using lo by auto
      have 4: ?strict
      proof
        assume t: "target_width = 1080 \<and> target_height = 1920"
        then have "dest_ratio = Fin (9/16)" using d default_target_ratio by simp
        then have "1 \<le> n" using default_target_height[of w p n] pos p n by simp
        then show "x1 box < x2 box \<and> y1 box < y2 box" unfolding box using pos by simp
      qed
      have "\<exists>p new_height.
                     int_div_float w dest_ratio = Inr p \<and> py_round_int p = Inr new_height
                   \<and> box = \<lparr>x1 = 0, y1 = (h - new_height) div 2,
                            x2 = w, y2 = (h - new_height) div 2 + new_height\<rparr>
                   \<and> x1 box < x2 box \<and> (y1 box < y2 box) = (new_height \<noteq> 0)"
        using p n box eq pos by (intro exI[of _ p] exI[of _ n]) simp
      with s d nc False 1 2 4 show ?thesis by auto
    qed
  qed
qed

theorem crop_box_inside_frame_witness:
  "compute_crop_box 1920 1080 1080 1920 = Inr \<lparr>x1 = 656, y1 = 0, x2 = 1264, y2 = 1080\<rparr>
   \<and> (0 \<le> x1 \<lparr>x1 = 656, y1 = 0, x2 = 1264, y2 = 1080\<rparr>
      \<and> x1 \<lparr>x1 = 656, y1 = 0, x2 = 1264, y2 = 1080\<rparr>
          \<le> x2 \<lparr>x1 = 656, y1 = 0, x2 = 1264, y2 = 1080\<rparr>
      \<and> x2 \<lparr>x1 = 656, y1 = 0, x2 = 1264, y2 = 1080\<rparr> \<le> 1920
      \<and> 0 \<le> y1 \<lparr>x1 = 656, y1 = 0, x2 = 1264, y2 = 1080\<rparr>
      \<and> y1 \<lparr>x1 = 656, y1 = 0, x2 = 1264, y2 = 1080\<rparr>
          \<le> y2 \<lparr>x1 = 656, y1 = 0, x2 = 1264, y2 = 1080\<rparr>
      \<and> y2 \<lparr>x1 = 656, y1 = 0, x2 = 1264, y2 = 1080\<rparr> \<le> 1080)
   \<and> (1080::int) = 1080 \<and> (1920::int) = 1920
   \<and> x1 \<lparr>x1 = 656, y1 = 0, x2 = 1264, y2 = 1080\<rparr>
       < x2 \<lparr>x1 = 656, y1 = 0, x2 = 1264, y2 = 1080\<rparr>
   \<and> y1 \<lparr>x1 = 656, y1 = 0, x2 = 1264, y2 = 1080\<rparr>
       < y2 \<lparr>x1 = 656, y1 = 0, x2 = 1264, y2 = 1080\<rparr>"
proof -
  note inst = crop_box_inside_frame[OF crop_1920_1080]
  have t: "(1080::int) = 1080 \<and> (1920::int) = 1920" by (rule conjI[OF refl refl])
  note bounds = inst[THEN conjunct1]
  note strict = inst[THEN conjunct2, THEN conjunct2, THEN conjunct2, THEN mp, OF t]
  show ?thesis by (rule conjI[OF crop_1920_1080 conjI[OF bounds conjI[OF conjunct1[OF t]
    conjI[OF conjunct2[OF t] strict]]]])
qed

section \<open>Properties of the export engine\<close>

lemma export_body_encode_failure:
  assumes "subclip env c ts te = Inr sub"
    and "apply_vertical_transform env sub resolution = Inr processed"
    and "py_int ts = Inr start_sec" and "py_int te = Inr end_sec"
    and "mktemp env files = Inr temp_audio"
    and "write_videofile env processed
           (path_join output_dir (output_filename source start_sec end_sec))
           (encoder_settings env c processed preset_arg audio_bitrate_arg temp_audio)
           (insert temp_audio files) = (Some (cls, msg), files')"
  shows "export_body env files c source ts te output_dir resolution preset_arg audio_bitrate_arg
       = (Inl (ExportFailed msg), files' - {temp_audio})"
  using assms unfolding export_body_def by (simp add: Let_def)

lemma export_encode_failure:
  assumes "mkdir env output_dir = None"
    and "get_video_metadata env files source = Inr md"
    and "sanitize_timecodes start end (meta_duration md) default_min_length = Inr (ts, te)"
    and "open_clip env source = Inr c"
    and "subclip env c ts te = Inr sub"
    and "apply_vertical_transform env sub resolution = Inr processed"
    and "py_int ts = Inr start_sec" and "py_int te = Inr end_sec"
    and "mktemp env files = Inr temp_audio"
    and "write_videofile env processed
           (path_join output_dir (output_filename source start_sec end_sec))
           (encoder_settings env c processed preset_arg audio_bitrate_arg temp_audio)
           (insert temp_audio files) = (Some (cls, msg), files')"
    and "close_clip env c = None"
  shows "export_vertical_clip env files source start end output_dir resolution preset_arg
           audio_bitrate_arg
       = (Inl (ExportFailed msg), files' - {temp_audio})"
  using assms(1-4,11) export_body_encode_failure[OF assms(5-10)]
  unfolding export_vertical_clip_def by (simp add: with_clip_def)

lemma export_body_success:
  assumes "export_body env files c source ts te output_dir resolution preset_arg audio_bitrate_arg
       = (Inr out, files')"
  shows "\<exists>start_sec end_sec. py_int ts = Inr start_sec \<and> py_int te = Inr end_sec
       \<and> out = path_join output_dir (output_filename source start_sec end_sec)"
  using assms unfolding export_body_def
  by (auto simp: Let_def split: sum.splits prod.splits option.splits)

lemma export_success:
  assumes "export_vertical_clip env files source start end output_dir resolution preset_arg
           audio_bitrate_arg = (Inr out, files')"
  shows "\<exists>md ts te start_sec end_sec.
           get_video_metadata env files source = Inr md
         \<and> sanitize_timecodes start end (meta_duration md) default_min_length = Inr (ts, te)
         \<and> py_int ts = Inr start_sec \<and> py_int te = Inr end_sec
         \<and> out = path_join output_dir (output_filename source start_sec end_sec)"
proof -
  from assms obtain md ts te c where md: "get_video_metadata env files source = Inr md"
    and st: "sanitize_timecodes start end (meta_duration md) default_min_length = Inr (ts, te)"
    and w: "with_clip env c (export_body env files c source ts te output_dir resolution
              preset_arg audio_bitrate_arg) = (Inr out, files')"
    unfolding export_vertical_clip_def
    by (auto split: sum.splits option.splits prod.splits)
  from w obtain files2 where "export_body env files c source ts te output_dir resolution
              preset_arg audio_bitrate_arg = (Inr out, files2)"
    unfolding with_clip_def by (auto split: option.splits)
  from export_body_success[OF this] md st show ?thesis by blast
qed

lemma sanitize_result_seconds:
  assumes ok: "sanitize_timecodes start end dur min_length = Inr (ts, te)"
    and a: "py_int ts = Inr a" and b: "py_int te = Inr b"
  shows "\<exists>s e. ts = Fin s \<and> te = Fin e \<and> 0 \<le> s \<and> 0 \<le> e \<and> a = \<lfloor>s\<rfloor> \<and> b = \<lfloor>e\<rfloor>"
proof -
  define s1 where "s1 = py_max (Fin 0) start"
  define e1 where "e1 = py_min end dur"
  from ok have c: "\<not> fle e1 s1" and r: "ts = py_round s1 3" "te = py_round e1 3"
    unfolding sanitize_timecodes_def Let_def s1_def e1_def by (auto split: if_splits)
  have s0: "fle (Fin 0) s1" unfolding s1_def by (rule py_max_ge) simp
  from a obtain s where s: "ts = Fin s" by (cases ts) auto
  from b obtain e where e: "te = Fin e" by (cases te) auto
  have "fle (Fin 0) ts" using py_round_mono[OF s0, of 3] unfolding r by (simp only: py_round_0)
  then have sn: "0 \<le> s" unfolding s by simp
  obtain ev where ev: "e1 = Fin ev" using e unfolding r by (cases e1) auto
  have "fle (Fin 0) e1" using c s0 unfolding ev by (cases s1) auto
  then have "fle (Fin 0) te" using py_round_mono[of "Fin 0" e1 3] unfolding r
    by (simp only: py_round_0)
  then have en: "0 \<le> e" unfolding e by simp
  from a b sn en show ?thesis unfolding s e by simp
qed

lemma export_body_error:
  assumes "export_body env files c source ts te output_dir resolution preset_arg audio_bitrate_arg
       = (Inl err, files')"
  shows "subclip env c ts te = Inl err
       \<or> (\<exists>sub. apply_vertical_transform env sub resolution = Inl err)
       \<or> py_int ts = Inl err \<or> py_int te = Inl err
       \<or> mktemp env files = Inl err
       \<or> (\<exists>processed out settings files1 cls msg files2.
             write_videofile env processed out settings files1 = (Some (cls, msg), files2)
             \<and> err = ExportFailed msg)"
proof (cases "subclip env c ts te")
  case (Inl e)
  then show ?thesis using assms unfolding export_body_def by simp
next
  case sub: (Inr sub)
  show ?thesis
  proof (cases "apply_vertical_transform env sub resolution")
    case (Inl e)
    then have "apply_vertical_transform env sub resolution = Inl err"
      using assms sub unfolding export_body_def by simp
    then show ?thesis by blast
  next
    case pr: (Inr processed)
    show ?thesis
    proof (cases "py_int ts")
      case (Inl e)
      then show ?thesis using assms sub pr unfolding export_body_def by simp
    next
      case s: (Inr start_sec)
      show ?thesis
      proof (cases "py_int te")
        case (Inl e)
        then show ?thesis using assms sub pr s unfolding export_body_def by simp
      next
        case e: (Inr end_sec)
        show ?thesis
        proof (cases "mktemp env files")
          case (Inl x)
          then show ?thesis using assms sub pr s e unfolding export_body_def by (simp add: Let_def)
        next
          case t: (Inr temp_audio)
          obtain raised files2 where w: "write_videofile env processed
              (path_join output_dir (output_filename source start_sec end_sec))
              (encoder_settings env c processed preset_arg audio_bitrate_arg temp_audio)
              (insert temp_audio files) = (raised, files2)"
            by (cases "write_videofile env processed
              (path_join output_dir (output_filename source start_sec end_sec))
              (encoder_settings env c processed preset_arg audio_bitrate_arg temp_audio)
              (insert temp_audio files)") auto
          from assms sub pr s e t w obtain cls msg where
            "raised = Some (cls, msg)" "err = ExportFailed msg"
            unfolding export_body_def by (auto simp: Let_def split: option.splits)
          with w show ?thesis by blast
        qed
      qed
    qed
  qed
qed

lemma export_error:
  assumes "export_vertical_clip env files source start end output_dir resolution preset_arg
           audio_bitrate_arg = (Inl err, files')"
  shows "mkdir env output_dir = Some err
       \<or> get_video_metadata env files source = Inl err
       \<or> (\<exists>md. get_video_metadata env files source = Inr md
             \<and> sanitize_timecodes start end (meta_duration md) default_min_length = Inl err)
       \<or> open_clip env source = Inl err
       \<or> (\<exists>c. close_clip env c = Some err)
       \<or> (\<exists>c ts te. subclip env c ts te = Inl err)
       \<or> (\<exists>sub. apply_vertical_transform env sub resolution = Inl err)
       \<or> (\<exists>t. py_int t = Inl err)
       \<or> mktemp env files = Inl err
       \<or> (\<exists>processed out settings files1 cls msg files2.
             write_videofile env processed out settings files1 = (Some (cls, msg), files2)
             \<and> err = ExportFailed msg)"
proof (cases "mkdir env output_dir")
  case (Some e)
  then show ?thesis using assms unfolding export_vertical_clip_def by simp
next
  case mk: None
  show ?thesis
  proof (cases "get_video_metadata env files source")
    case (Inl e)
    then show ?thesis using assms mk unfolding export_vertical_clip_def by simp
  next
    case md: (Inr md)
    show ?thesis
    proof (cases "sanitize_timecodes start end (meta_duration md) default_min_length")
      case (Inl e)
      then have "sanitize_timecodes start end (meta_duration md) default_min_length = Inl err"
        using assms mk md unfolding export_vertical_clip_def by simp
      with md show ?thesis by blast
    next
      case (Inr tt)
      then obtain ts te where st:
        "sanitize_timecodes start end (meta_duration md) default_min_length = Inr (ts, te)"
        by (cases tt) auto
      show ?thesis
      proof (cases "open_clip env source")
        case (Inl e)
        then show ?thesis using assms mk md st unfolding export_vertical_clip_def by simp
      next
        case oc: (Inr c)
        have w: "with_clip env c (export_body env files c source ts te output_dir resolution
            preset_arg audio_bitrate_arg) = (Inl err, files')"
          using assms mk md st oc unfolding export_vertical_clip_def by simp
        show ?thesis
        proof (cases "close_clip env c")
          case (Some e)
          then have "close_clip env c = Some err" using w unfolding with_clip_def by simp
          then show ?thesis by blast
        next
          case None
          then have "export_body env files c source ts te output_dir resolution
            preset_arg audio_bitrate_arg = (Inl err, files')"
            using w unfolding with_clip_def by simp
          from export_body_error[OF this] show ?thesis by blast
        qed
      qed
    qed
  qed
qed

lemma sample_calls:
  "open_clip (sample_env raised) p = Inr sample_clip"
  "mkdir (sample_env raised) d = None"
  "close_clip (sample_env raised) c = None"
  "subclip (sample_env raised) c a b = Inr c"
  "mktemp (sample_env raised) f = Inr [''tmp'', ''audio.m4a'']"
  "write_videofile (sample_env raised) c p st f = (raised, insert p f)"
  by (simp_all add: sample_env_def)

lemma sample_metadata:
  "get_video_metadata (sample_env raised) {[''videos'', ''talk.mp4'']} [''videos'', ''talk.mp4'']
     = Inr \<lparr>meta_duration = Fin 10, meta_fps = Some (Fin 30), meta_width = 1920,
            meta_height = 1080, filesize = 1000\<rparr>"
  by (simp add: get_video_metadata_def sample_env_def sample_clip_def feq_def)

lemma sample_sanitize:
  "sanitize_timecodes (Fin (3/2)) (Fin 4) (Fin 10) default_min_length = Inr (Fin (3/2), Fin 4)"
  by (simp add: sanitize_timecodes_def Let_def py_max_def py_min_def fgt_def fge_def
      default_min_length_def fl_5_2 fl_3_2 fl_4)

lemma sample_transform:
  "apply_vertical_transform (sample_env raised) sample_clip (1080, 1920)
     = Inr \<lparr>clip_w = 1080, clip_h = 1920, clip_fps = Some (Fin 30),
            clip_duration = Some (Fin 10)\<rparr>"
  by (simp add: apply_vertical_transform_def sample_clip_def crop_1920_1080 and_then_def
      width_def height_def sample_env_def)

lemma sample_seconds: "py_int (Fin (3/2)) = Inr 1" "py_int (Fin 4) = Inr 4"
  by (simp_all add: floor_eq_iff)

lemma sample_filename:
  "output_filename [''videos'', ''talk.mp4''] 1 4 = ''short_talk_1_4.mp4''"
  by (simp add: output_filename_def stem_def name_of_def str_int_def Let_def)

lemma sample_export:
  "export_vertical_clip (sample_env raised) {[''videos'', ''talk.mp4'']} [''videos'', ''talk.mp4'']
     (Fin (3/2)) (Fin 4) [''out''] (1080, 1920) ''medium'' ''128k''
   = (case raised of None \<Rightarrow> Inr [''out'', ''short_talk_1_4.mp4'']
      | Some (cls, msg) \<Rightarrow> Inl (ExportFailed msg),
      {[''out'', ''short_talk_1_4.mp4''], [''videos'', ''talk.mp4'']})"
proof -
  have e: "open_clip (sample_env raised) p = Inr sample_clip"
    "mkdir (sample_env raised) d = None"
    "close_clip (sample_env raised) c = None"
    "subclip (sample_env raised) c a b = Inr c"
    "mktemp (sample_env raised) f = Inr [''tmp'', ''audio.m4a'']"
    "write_videofile (sample_env raised) c p st f = (raised, insert p f)"
    for p d c a b f st
    by (simp_all add: sample_env_def)
  show ?thesis
    unfolding export_vertical_clip_def export_body_def with_clip_def
    by (simp add: e sample_metadata sample_sanitize sample_transform sample_seconds
        sample_filename path_join_def Let_def insert_commute split: option.splits)
qed

text \<open>
  \<^bold>\<open>C8.\<close> Every successful call of \<open>export_vertical_clip\<close> returns
  \<open>output_dir / short_{stem}_{floor(start')}_{floor(end')}.mp4\<close>, where \<open>stem\<close> is the stem
  of the source path and \<open>(start', end')\<close> is the window that \<open>sanitize_timecodes\<close>
  returns for the requested times and the duration of the metadata. The code truncates
  with \<open>int(...)\<close>; the two bounds are finite and not negative on a successful call, so
  that is the floor.
\<close>

theorem export_output_name:
  assumes "export_vertical_clip env files source start end output_dir resolution preset_arg
           audio_bitrate_arg = (Inr out, files')"
  shows "\<exists>md s e.
           get_video_metadata env files source = Inr md
         \<and> sanitize_timecodes start end (meta_duration md) default_min_length
             = Inr (Fin s, Fin e)
         \<and> out = path_join output_dir
             (''short_'' @ stem source @ ''_'' @ str_int \<lfloor>s\<rfloor> @ ''_'' @ str_int \<lfloor>e\<rfloor> @ ''.mp4'')"
proof -
  from export_success[OF assms] obtain md ts te start_sec end_sec where
    md: "get_video_metadata env files source = Inr md"
    and st: "sanitize_timecodes start end (meta_duration md) default_min_length = Inr (ts, te)"
    and i: "py_int ts = Inr start_sec" "py_int te = Inr end_sec"
    and out: "out = path_join output_dir (output_filename source start_sec end_sec)"
    by blast
  from sanitize_result_seconds[OF st i] obtain s e where
    "ts = Fin s" "te = Fin e" "start_sec = \<lfloor>s\<rfloor>" "end_sec = \<lfloor>e\<rfloor>" by blast
  with md st out show ?thesis unfolding output_filename_def by blast
qed

theorem export_output_name_witness:
  "export_vertical_clip (sample_env None) {[''videos'', ''talk.mp4'']} [''videos'', ''talk.mp4'']
     (Fin (3/2)) (Fin 4) [''out''] (1080, 1920) ''medium'' ''128k''
     = (Inr [''out'', ''short_talk_1_4.mp4''],
        {[''out'', ''short_talk_1_4.mp4''], [''videos'', ''talk.mp4'']})
   \<and> (\<exists>md s e.
         get_video_metadata (sample_env None) {[''videos'', ''talk.mp4'']} [''videos'', ''talk.mp4'']
           = Inr md
       \<and> sanitize_timecodes (Fin (3/2)) (Fin 4) (meta_duration md) default_min_length
           = Inr (Fin s, Fin e)
       \<and> [''out'', ''short_talk_1_4.mp4''] = path_join [''out'']
           (''short_'' @ stem [''videos'', ''talk.mp4''] @ ''_'' @ str_int \<lfloor>s\<rfloor> @ ''_''
              @ str_int \<lfloor>e\<rfloor> @ ''.mp4''))"
proof -
  have h: "export_vertical_clip (sample_env None) {[''videos'', ''talk.mp4'']}
     [''videos'', ''talk.mp4''] (Fin (3/2)) (Fin 4) [''out''] (1080, 1920) ''medium'' ''128k''
     = (Inr [''out'', ''short_talk_1_4.mp4''],
        {[''out'', ''short_talk_1_4.mp4''], [''videos'', ''talk.mp4'']})"
    by (simp add: sample_export)
  from export_output_name[OF h] h show ?thesis by blast
qed

text \<open>
  \<^bold>\<open>C9.\<close> A failure of the metadata read and a failure of the timecode validation
  leave \<open>export_vertical_clip\<close> as they were raised, class and message; a failure of the
  encoder is raised as \<open>ProcessingError("Unable to export clip: " + message)\<close> (provided
  that closing the source clip on the way out does not raise in turn); and nothing else
  is wrapped: every exception of \<open>export_vertical_clip\<close> is one that a callee raised,
  unchanged, or the wrapped failure of the encoder.
\<close>

theorem export_error_propagation:
  "(mkdir env output_dir = None \<and> get_video_metadata env files source = Inl e1
      \<longrightarrow> export_vertical_clip env files source start end output_dir resolution preset_arg
            audio_bitrate_arg = (Inl e1, files))
   \<and> (mkdir env output_dir = None \<and> get_video_metadata env files source = Inr md
       \<and> sanitize_timecodes start end (meta_duration md) default_min_length = Inl e2
      \<longrightarrow> export_vertical_clip env files source start end output_dir resolution preset_arg
            audio_bitrate_arg = (Inl e2, files))
   \<and> (mkdir env output_dir = None \<and> get_video_metadata env files source = Inr md
       \<and> sanitize_timecodes start end (meta_duration md) default_min_length = Inr (ts, te)
       \<and> open_clip env source = Inr c
       \<and> subclip env c ts te = Inr sub
       \<and> apply_vertical_transform env sub resolution = Inr processed
       \<and> py_int ts = Inr start_sec \<and> py_int te = Inr end_sec
       \<and> mktemp env files = Inr temp_audio
       \<and> write_videofile env processed
            (path_join output_dir (output_filename source start_sec end_sec))
            (encoder_settings env c processed preset_arg audio_bitrate_arg temp_audio)
            (insert temp_audio files) = (Some (cls, msg), files2)
       \<and> close_clip env c = None
      \<longrightarrow> fst (export_vertical_clip env files source start end output_dir resolution preset_arg
            audio_bitrate_arg) = Inl (ProcessingError, ''Unable to export clip: '' @ msg))
   \<and> (export_vertical_clip env files source start end output_dir resolution preset_arg
            audio_bitrate_arg = (Inl err, files')
      \<longrightarrow> mkdir env output_dir = Some err
        \<or> get_video_metadata env files source = Inl err
        \<or> (\<exists>md. get_video_metadata env files source = Inr md
              \<and> sanitize_timecodes start end (meta_duration md) default_min_length = Inl err)
        \<or> open_clip env source = Inl err
        \<or> (\<exists>c. close_clip env c = Some err)
        \<or> (\<exists>c ts te. subclip env c ts te = Inl err)
        \<or> (\<exists>sub. apply_vertical_transform env sub resolution = Inl err)
        \<or> (\<exists>t. py_int t = Inl err)
        \<or> mktemp env files = Inl err
        \<or> (\<exists>processed out settings files1 cls msg files2.
              write_videofile env processed out settings files1 = (Some (cls, msg), files2)
              \<and> err = (ProcessingError, ''Unable to export clip: '' @ msg)))"
proof (intro conjI impI)
  assume "mkdir env output_dir = None \<and> get_video_metadata env files source = Inl e1"
  then show "export_vertical_clip env files source start end output_dir resolution preset_arg
            audio_bitrate_arg = (Inl e1, files)"
    unfolding export_vertical_clip_def by simp
next
  assume "mkdir env output_dir = None \<and> get_video_metadata env files source = Inr md
       \<and> sanitize_timecodes start end (meta_duration md) default_min_length = Inl e2"
  then show "export_vertical_clip env files source start end output_dir resolution preset_arg
            audio_bitrate_arg = (Inl e2, files)"
    unfolding export_vertical_clip_def by simp
next
  assume h: "mkdir env output_dir = None \<and> get_video_metadata env files source = Inr md
       \<and> sanitize_timecodes start end (meta_duration md) default_min_length = Inr (ts, te)
       \<and> open_clip env source = Inr c
       \<and> subclip env c ts te = Inr sub
       \<and> apply_vertical_transform env sub resolution = Inr processed
       \<and> py_int ts = Inr start_sec \<and> py_int te = Inr end_sec
       \<and> mktemp env files = Inr temp_audio
       \<and> write_videofile env processed
            (path_join output_dir (output_filename source start_sec end_sec))
            (encoder_settings env c processed preset_arg audio_bitrate_arg temp_audio)
            (insert temp_audio files) = (Some (cls, msg), files2)
       \<and> close_clip env c = None"
  have "export_vertical_clip env files source start end output_dir resolution preset_arg
           audio_bitrate_arg = (Inl (ExportFailed msg), files2 - {temp_audio})"
    using h by (elim conjE) (rule export_encode_failure, assumption+)
  then show "fst (export_vertical_clip env files source start end output_dir resolution preset_arg
            audio_bitrate_arg) = Inl (ProcessingError, ''Unable to export clip: '' @ msg)"
    by (simp add: ExportFailed_def)
next
  assume "export_vertical_clip env files source start end output_dir resolution preset_arg
            audio_bitrate_arg = (Inl err, files')"
  from export_error[OF this]
  show "mkdir env output_dir = Some err
        \<or> get_video_metadata env files source = Inl err
        \<or> (\<exists>md. get_video_metadata env files source = Inr md
              \<and> sanitize_timecodes start end (meta_duration md) default_min_length = Inl err)
        \<or> open_clip env source = Inl err
        \<or> (\<exists>c. close_clip env c = Some err)
        \<or> (\<exists>c ts te. subclip env c ts te = Inl err)
        \<or> (\<exists>sub. apply_vertical_transform env sub resolution = Inl err)
        \<or> (\<exists>t. py_int t = Inl err)
        \<or> mktemp env files = Inl err
        \<or> (\<exists>processed out settings files1 cls msg files2.
              write_videofile env processed out settings files1 = (Some (cls, msg), files2)
              \<and> err = (ProcessingError, ''Unable to export clip: '' @ msg))"
    unfolding ExportFailed_def .
qed

theorem export_error_propagation_witness:
  "get_video_metadata (sample_env None) {} [''videos'', ''talk.mp4'']
     = Inl (ProcessingError, ''Video not found at videos/talk.mp4'')
   \<and> export_vertical_clip (sample_env None) {} [''videos'', ''talk.mp4''] (Fin (3/2)) (Fin 4)
       [''out''] (1080, 1920) ''medium'' ''128k''
     = (Inl (ProcessingError, ''Video not found at videos/talk.mp4''), {})
   \<and> sanitize_timecodes (Fin 10) (Fin (5685794529555251 / 562949953421312)) (Fin 10)
       default_min_length = Inl SelectionTooShort
   \<and> export_vertical_clip (sample_env None) {[''videos'', ''talk.mp4'']} [''videos'', ''talk.mp4'']
       (Fin 10) (Fin (5685794529555251 / 562949953421312)) [''out''] (1080, 1920) ''medium''
       ''128k''
     = (Inl SelectionTooShort, {[''videos'', ''talk.mp4'']})
   \<and> fst (export_vertical_clip (sample_env (Some (OSError, ''No space left on device'')))
         {[''videos'', ''talk.mp4'']} [''videos'', ''talk.mp4''] (Fin (3/2)) (Fin 4) [''out'']
         (1080, 1920) ''medium'' ''128k'')
     = Inl (ProcessingError, ''Unable to export clip: No space left on device'')"
proof -
  let ?src = "[''videos'', ''talk.mp4'']"
  let ?bad = "sample_env (Some (OSError, ''No space left on device''))"
  let ?md = "\<lparr>meta_duration = Fin 10, meta_fps = Some (Fin 30), meta_width = 1920,
            meta_height = 1080, filesize = 1000\<rparr>"
  let ?processed = "\<lparr>clip_w = 1080, clip_h = 1920, clip_fps = Some (Fin 30),
            clip_duration = Some (Fin 10)\<rparr>"
  have a1: "get_video_metadata (sample_env None) {} ?src
      = Inl (ProcessingError, ''Video not found at videos/talk.mp4'')"
    by (simp add: get_video_metadata_def)
  have a: "export_vertical_clip (sample_env None) {} ?src (Fin (3/2)) (Fin 4)
       [''out''] (1080, 1920) ''medium'' ''128k''
     = (Inl (ProcessingError, ''Video not found at videos/talk.mp4''), {})"
    using export_error_propagation[of "sample_env None" "[''out'']" "{}" ?src
        "(ProcessingError, ''Video not found at videos/talk.mp4'')"
        "Fin (3/2)" "Fin 4" "(1080, 1920)" "''medium''" "''128k''", THEN conjunct1]
      sample_calls(2) a1 by simp
  have b1: "sanitize_timecodes (Fin 10) (Fin (5685794529555251 / 562949953421312))
      (meta_duration ?md) default_min_length = Inl SelectionTooShort"
    by (simp add: sanitize_timecodes_def Let_def py_min_def py_max_def fgt_def
        default_min_length_def)
  have b: "export_vertical_clip (sample_env None) {?src} ?src
       (Fin 10) (Fin (5685794529555251 / 562949953421312)) [''out''] (1080, 1920) ''medium''
       ''128k'' = (Inl SelectionTooShort, {?src})"
    using export_error_propagation[of "sample_env None" "[''out'']" "{?src}" ?src _
        "Fin 10" "Fin (5685794529555251 / 562949953421312)" "(1080, 1920)" "''medium''"
        "''128k''" ?md SelectionTooShort, THEN conjunct2, THEN conjunct1]
      sample_calls(2) sample_metadata b1 by simp
  have w: "write_videofile ?bad ?processed
      (path_join [''out''] (output_filename ?src 1 4))
      (encoder_settings ?bad sample_clip ?processed ''medium'' ''128k'' [''tmp'', ''audio.m4a''])
      (insert [''tmp'', ''audio.m4a''] {?src})
     = (Some (OSError, ''No space left on device''),
        insert (path_join [''out''] (output_filename ?src 1 4))
          (insert [''tmp'', ''audio.m4a''] {?src}))"
    by (simp add: sample_calls)
  have s: "sanitize_timecodes (Fin (3/2)) (Fin 4) (meta_duration ?md) default_min_length
      = Inr (Fin (3/2), Fin 4)"
    by (simp add: sample_sanitize)
  have c: "fst (export_vertical_clip ?bad {?src} ?src (Fin (3/2)) (Fin 4) [''out'']
         (1080, 1920) ''medium'' ''128k'')
     = Inl (ProcessingError, ''Unable to export clip: No space left on device'')"
    using export_error_propagation[of ?bad "[''out'']" "{?src}" ?src _
        "Fin (3/2)" "Fin 4" "(1080, 1920)" "''medium''" "''128k''" ?md _ "Fin (3/2)" "Fin 4"
        sample_clip sample_clip ?processed 1 4 "[''tmp'', ''audio.m4a'']" OSError
        "''No space left on device''", THEN conjunct2, THEN conjunct2, THEN conjunct1]
      sample_calls(1-5)[of "Some (OSError, ''No space left on device'')"]
      sample_metadata s sample_transform sample_seconds w
    by simp
  from a1 a b1 b c show ?thesis by simp
qed

text \<open>
  \<^bold>\<open>C4.\<close> The claim is that after a failure of the encode step no partial output
  file remains. The function never deletes the output: with an encoder that writes its
  file and then raises, the file is still there when \<open>ProcessingError\<close> reaches the
  caller.
\<close>

theorem export_leaves_partial_output_counterexample:
  "fst (export_vertical_clip (sample_env (Some (OSError, ''No space left on device'')))
         {[''videos'', ''talk.mp4'']} [''videos'', ''talk.mp4''] (Fin (3/2)) (Fin 4) [''out'']
         (1080, 1920) ''medium'' ''128k'')
     = Inl (ProcessingError, ''Unable to export clip: No space left on device'')
   \<and> [''out'', ''short_talk_1_4.mp4''] \<notin> {[''videos'', ''talk.mp4'']}
   \<and> [''out'', ''short_talk_1_4.mp4'']
       \<in> snd (export_vertical_clip (sample_env (Some (OSError, ''No space left on device'')))
         {[''videos'', ''talk.mp4'']} [''videos'', ''talk.mp4''] (Fin (3/2)) (Fin 4) [''out'']
         (1080, 1920) ''medium'' ''128k'')"
  by (simp add: sample_export ExportFailed_def)

text \<open>
  \<^bold>\<open>C4, as amended.\<close> When the encode step fails (and closing the source clip does
  not raise), \<open>export_vertical_clip\<close> raises
  \<open>ProcessingError("Unable to export clip: " + message)\<close> and leaves the file system as
  the encoder left it, less the temporary audio file: the output path holds whatever the
  encoder wrote there.
\<close>

theorem export_encode_failure_files:
  assumes "mkdir env output_dir = None"
    and "get_video_metadata env files source = Inr md"
    and "sanitize_timecodes start end (meta_duration md) default_min_length = Inr (ts, te)"
    and "open_clip env source = Inr c"
    and "subclip env c ts te = Inr sub"
    and "apply_vertical_transform env sub resolution = Inr processed"
    and "py_int ts = Inr start_sec" and "py_int te = Inr end_sec"
    and "mktemp env files = Inr temp_audio"
    and "write_videofile env processed
           (path_join output_dir (output_filename source start_sec end_sec))
           (encoder_settings env c processed preset_arg audio_bitrate_arg temp_audio)
           (insert temp_audio files) = (Some (cls, msg), files2)"
    and "close_clip env c = None"
  shows "export_vertical_clip env files source start end output_dir resolution preset_arg
           audio_bitrate_arg
       = (Inl (ProcessingError, ''Unable to export clip: '' @ msg), files2 - {temp_audio})"
  using export_encode_failure[OF assms] by (simp add: ExportFailed_def)

theorem export_encode_failure_files_witness:
  "write_videofile (sample_env (Some (OSError, ''No space left on device'')))
      \<lparr>clip_w = 1080, clip_h = 1920, clip_fps = Some (Fin 30), clip_duration = Some (Fin 10)\<rparr>
      (path_join [''out''] (output_filename [''videos'', ''talk.mp4''] 1 4))
      (encoder_settings (sample_env (Some (OSError, ''No space left on device''))) sample_clip
         \<lparr>clip_w = 1080, clip_h = 1920, clip_fps = Some (Fin 30), clip_duration = Some (Fin 10)\<rparr>
         ''medium'' ''128k'' [''tmp'', ''audio.m4a''])
      (insert [''tmp'', ''audio.m4a''] {[''videos'', ''talk.mp4'']})
     = (Some (OSError, ''No space left on device''),
        {[''out'', ''short_talk_1_4.mp4''], [''tmp'', ''audio.m4a''], [''videos'', ''talk.mp4'']})
   \<and> export_vertical_clip (sample_env (Some (OSError, ''No space left on device'')))
         {[''videos'', ''talk.mp4'']} [''videos'', ''talk.mp4''] (Fin (3/2)) (Fin 4) [''out'']
         (1080, 1920) ''medium'' ''128k''
     = (Inl (ProcessingError, ''Unable to export clip: No space left on device''),
        {[''out'', ''short_talk_1_4.mp4''], [''tmp'', ''audio.m4a''], [''videos'', ''talk.mp4'']}
          - {[''tmp'', ''audio.m4a'']})"
proof -
  let ?env = "sample_env (Some (OSError, ''No space left on device''))"
  have w: "write_videofile ?env
      \<lparr>clip_w = 1080, clip_h = 1920, clip_fps = Some (Fin 30), clip_duration = Some (Fin 10)\<rparr>
      (path_join [''out''] (output_filename [''videos'', ''talk.mp4''] 1 4))
      (encoder_settings ?env sample_clip
         \<lparr>clip_w = 1080, clip_h = 1920, clip_fps = Some (Fin 30), clip_duration = Some (Fin 10)\<rparr>
         ''medium'' ''128k'' [''tmp'', ''audio.m4a''])
      (insert [''tmp'', ''audio.m4a''] {[''videos'', ''talk.mp4'']})
     = (Some (OSError, ''No space left on device''),
        {[''out'', ''short_talk_1_4.mp4''], [''tmp'', ''audio.m4a''], [''videos'', ''talk.mp4'']})"
    by (simp add: sample_calls sample_filename path_join_def)
  have s: "sanitize_timecodes (Fin (3/2)) (Fin 4)
      (meta_duration \<lparr>meta_duration = Fin 10, meta_fps = Some (Fin 30), meta_width = 1920,
            meta_height = 1080, filesize = 1000\<rparr>) default_min_length = Inr (Fin (3/2), Fin 4)"
    by (simp add: sample_sanitize)
  from export_encode_failure_files[OF sample_calls(2) sample_metadata s sample_calls(1)
      sample_calls(4) sample_transform sample_seconds sample_calls(5) w sample_calls(3)] w
  show ?thesis by simp
qed


end
